theory Spec2Isabelle
  imports Main "HOL-Library.Char_ord" "HOL-Library.List_Lexorder"
begin

section \<open>Family Office News Tracker: the fetch, filter, store and read pipeline of app.py\<close>

text \<open>
  Strings are \<open>string\<close> (lists of 8-bit characters). SQLite compares TEXT values with the
  BINARY collation (bytewise, a proper prefix being smaller), which on lists of characters is
  the lexicographic order of \<open>HOL-Library.List_Lexorder\<close> over the order of characters by code.
\<close>

subsection \<open>Aware UTC datetimes (the parts of Python's datetime the program uses)\<close>

text \<open>
  Every datetime the program builds is built in UTC: \<open>datetime.now(timezone.utc)\<close>,
  \<open>datetime(..., tzinfo=timezone.utc)\<close> and \<open>pd.to_datetime(..., utc=True)\<close>. The type
  \<open>datetime\<close> is therefore the aware datetime whose \<open>tzinfo\<close> is \<open>timezone.utc\<close>, given by
  its civil fields. The helpers below follow the standard library's \<open>datetime\<close> module
  (\<open>_is_leap\<close>, \<open>_days_before_year\<close>, \<open>_days_in_month\<close>, \<open>_days_before_month\<close>,
  \<open>_ymd2ord\<close>, \<open>_ord2ymd\<close>, the field checks of the constructor, \<open>__add__\<close> of a
  timedelta of whole days, \<open>isoformat\<close> and the comparison of two datetimes of one tzinfo).
\<close>

record datetime =
  year :: nat
  month :: nat
  day :: nat
  hour :: nat
  minute :: nat
  second :: nat
  microsecond :: nat

definition MINYEAR :: int where "MINYEAR = 1"
definition MAXYEAR :: int where "MAXYEAR = 9999"
definition MAXORDINAL :: int where "MAXORDINAL = 3652059"

definition DAYS_IN_MONTH :: "int list" where
  "DAYS_IN_MONTH = [-1, 31, 28, 31, 30, 31, 30, 31, 31, 30, 31, 30, 31]"

definition DAYS_BEFORE_MONTH :: "int list" where
  "DAYS_BEFORE_MONTH = [-1, 0, 31, 59, 90, 120, 151, 181, 212, 243, 273, 304, 334]"

definition is_leap :: "int \<Rightarrow> bool" where
  "is_leap y = (y mod 4 = 0 \<and> (y mod 100 \<noteq> 0 \<or> y mod 400 = 0))"

definition days_before_year :: "int \<Rightarrow> int" where
  "days_before_year y = (let y1 = y - 1 in y1 * 365 + y1 div 4 - y1 div 100 + y1 div 400)"

text \<open>The two table lookups are only reached with a month between 1 and 12.\<close>

definition days_in_month :: "int \<Rightarrow> int \<Rightarrow> int" where
  "days_in_month y m = (if m = 2 \<and> is_leap y then 29 else DAYS_IN_MONTH ! nat m)"

definition days_before_month :: "int \<Rightarrow> int \<Rightarrow> int" where
  "days_before_month y m = DAYS_BEFORE_MONTH ! nat m + (if m > 2 \<and> is_leap y then 1 else 0)"

definition ymd2ord :: "int \<Rightarrow> int \<Rightarrow> int \<Rightarrow> int" where
  "ymd2ord y m d = days_before_year y + days_before_month y m + d"

definition ord2ymd :: "int \<Rightarrow> int \<times> int \<times> int" where
  "ord2ymd n0 =
     (let n = n0 - 1;
          n400 = n div 146097; n = n mod 146097;
          y = n400 * 400 + 1;
          n100 = n div 36524; n = n mod 36524;
          n4 = n div 1461; n = n mod 1461;
          n1 = n div 365; n = n mod 365;
          y = y + n100 * 100 + n4 * 4 + n1
      in if n1 = 4 \<or> n100 = 4 then (y - 1, 12, 31)
         else
           let leapyear = (n1 = 3 \<and> (n4 \<noteq> 24 \<or> n100 = 3));
               m = (n + 50) div 32;
               preceding = DAYS_BEFORE_MONTH ! nat m + (if m > 2 \<and> leapyear then 1 else 0)
           in if preceding > n
              then (let m' = m - 1;
                        preceding' = preceding -
                          (DAYS_IN_MONTH ! nat m' + (if m' = 2 \<and> leapyear then 1 else 0))
                    in (y, m', n - preceding' + 1))
              else (y, m, n - preceding + 1))"

text \<open>
  The constructor \<open>datetime(year, month, day, hour, minute, second, microsecond,
  tzinfo=timezone.utc)\<close>: a field out of range raises ValueError, here \<open>None\<close>.
\<close>

definition datetime_new :: "int \<Rightarrow> int \<Rightarrow> int \<Rightarrow> int \<Rightarrow> int \<Rightarrow> int \<Rightarrow> int \<Rightarrow> datetime option" where
  "datetime_new y m d hh mm ss us =
     (if \<not> (MINYEAR \<le> y \<and> y \<le> MAXYEAR) then None
      else if \<not> (1 \<le> m \<and> m \<le> 12) then None
      else if \<not> (1 \<le> d \<and> d \<le> days_in_month y m) then None
      else if \<not> (0 \<le> hh \<and> hh \<le> 23) then None
      else if \<not> (0 \<le> mm \<and> mm \<le> 59) then None
      else if \<not> (0 \<le> ss \<and> ss \<le> 59) then None
      else if \<not> (0 \<le> us \<and> us \<le> 999999) then None
      else Some \<lparr>year = nat y, month = nat m, day = nat d, hour = nat hh, minute = nat mm,
                  second = nat ss, microsecond = nat us\<rparr>)"

text \<open>
  \<open>datetime(*args, tzinfo=timezone.utc)\<close> on a tuple of integers: year, month and day are
  required and hour, minute, second and microsecond default to 0; fewer than three or more
  than seven positional arguments raise TypeError, here \<open>None\<close>.
\<close>

fun datetime_of_args :: "int list \<Rightarrow> datetime option" where
  "datetime_of_args [y, m, d] = datetime_new y m d 0 0 0 0"
| "datetime_of_args [y, m, d, hh] = datetime_new y m d hh 0 0 0"
| "datetime_of_args [y, m, d, hh, mm] = datetime_new y m d hh mm 0 0"
| "datetime_of_args [y, m, d, hh, mm, ss] = datetime_new y m d hh mm ss 0"
| "datetime_of_args [y, m, d, hh, mm, ss, us] = datetime_new y m d hh mm ss us"
| "datetime_of_args _ = None"

text \<open>The field ranges that every datetime object satisfies (the constructor enforces them).\<close>

definition valid_datetime :: "datetime \<Rightarrow> bool" where
  "valid_datetime dt =
     (1 \<le> year dt \<and> year dt \<le> 9999 \<and> 1 \<le> month dt \<and> month dt \<le> 12 \<and>
      1 \<le> day dt \<and> int (day dt) \<le> days_in_month (int (year dt)) (int (month dt)) \<and>
      hour dt \<le> 23 \<and> minute dt \<le> 59 \<and> second dt \<le> 59 \<and> microsecond dt \<le> 999999)"

definition toordinal :: "datetime \<Rightarrow> int" where
  "toordinal dt = ymd2ord (int (year dt)) (int (month dt)) (int (day dt))"

text \<open>
  \<open>dt - timedelta(days=k)\<close>: the ordinal of the date moves by \<open>k\<close>, the time of day is
  rebuilt from its seconds, and a date outside years 1 to 9999 raises OverflowError, here
  \<open>None\<close>. The result goes through the constructor, as \<open>date.fromordinal\<close> and \<open>combine\<close> do.
\<close>

definition sub_days :: "datetime \<Rightarrow> int \<Rightarrow> datetime option" where
  "sub_days dt k =
     (let days = toordinal dt - k;
          seconds = int (hour dt) * 3600 + int (minute dt) * 60 + int (second dt);
          hh = seconds div 3600; rem = seconds mod 3600;
          mm = rem div 60; ss = rem mod 60
      in if 0 < days \<and> days \<le> MAXORDINAL
         then (case ord2ymd days of (y, m, d) \<Rightarrow> datetime_new y m d hh mm ss (int (microsecond dt)))
         else None)"

text \<open>
  Two aware datetimes of the same tzinfo compare as the tuples of their fields
  (\<open>datetime._cmp\<close>), which is the lexicographic order on lists of equal length.
\<close>

definition dt_tuple :: "datetime \<Rightarrow> nat list" where
  "dt_tuple dt = [year dt, month dt, day dt, hour dt, minute dt, second dt, microsecond dt]"

definition dt_less :: "datetime \<Rightarrow> datetime \<Rightarrow> bool" where
  "dt_less a b = (dt_tuple a < dt_tuple b)"

text \<open>
  Exceptions that reach the caller are values: \<open>Raises\<close> is a raise that nothing catches.
\<close>

datatype error = ValueError | OverflowError

datatype 'a outcome = Returns 'a | Raises error

text \<open>
  What \<open>parse_entry_published\<close> can return: a datetime, or pandas' \<open>NaT\<close>, which
  \<open>pd.to_datetime(s, utc=True).to_pydatetime()\<close> gives (without raising) for strings such as
  \<open>NaT\<close> and \<open>nan\<close>. \<open>NaT < dt\<close> is False for every datetime, and \<open>NaT.astimezone\<close> raises
  ValueError. \<open>astimezone(timezone.utc)\<close> of a datetime that is already in UTC keeps its
  fields, and \<open>replace(tzinfo=timezone.utc)\<close> sets the tzinfo it already has.
\<close>

datatype timestamp = Datetime datetime | NaT

definition ts_less :: "timestamp \<Rightarrow> datetime \<Rightarrow> bool" where
  "ts_less ts b = (case ts of Datetime a \<Rightarrow> dt_less a b | NaT \<Rightarrow> False)"

definition astimezone_utc :: "timestamp \<Rightarrow> datetime outcome" where
  "astimezone_utc ts = (case ts of Datetime dt \<Rightarrow> Returns dt | NaT \<Rightarrow> Raises ValueError)"

definition replace_tzinfo_utc :: "datetime \<Rightarrow> datetime" where
  "replace_tzinfo_utc dt = dt"

text \<open>
  \<open>isoformat()\<close>: \<open>%04d-%02d-%02dT%02d:%02d:%02d\<close>, then \<open>.%06d\<close> when the microsecond
  is not zero, then the UTC offset \<open>+00:00\<close>. \<open>fmt_d w k\<close> is \<open>%0wd\<close>: at least \<open>w\<close>
  digits, padded with zeros on the left.
\<close>

definition digit_char :: "nat \<Rightarrow> char" where
  "digit_char d = char_of (48 + d)"

fun fmt_d :: "nat \<Rightarrow> nat \<Rightarrow> string" where
  "fmt_d w k = (if k < 10 then replicate (w - 1) (CHR ''0'') @ [digit_char k]
                else fmt_d (w - 1) (k div 10) @ [digit_char (k mod 10)])"

declare fmt_d.simps [simp del]

definition isoformat :: "datetime \<Rightarrow> string" where
  "isoformat dt =
     fmt_d 4 (year dt) @ ''-'' @ fmt_d 2 (month dt) @ ''-'' @ fmt_d 2 (day dt) @ ''T'' @
     fmt_d 2 (hour dt) @ '':'' @ fmt_d 2 (minute dt) @ '':'' @ fmt_d 2 (second dt) @
     (if microsecond dt \<noteq> 0 then ''.'' @ fmt_d 6 (microsecond dt) else []) @ ''+00:00''"

subsection \<open>String helpers: strip, split and quote_plus\<close>

text \<open>
  Characters stand for code points below 256. \<open>str.strip()\<close> removes leading and trailing
  whitespace; among these code points \<open>str.isspace\<close> holds for 9 to 13, 28 to 32, 133 and 160.
\<close>

definition isspace :: "char \<Rightarrow> bool" where
  "isspace c = (let n = (of_char c :: nat) in
     (9 \<le> n \<and> n \<le> 13) \<or> (28 \<le> n \<and> n \<le> 32) \<or> n = 133 \<or> n = 160)"

definition strip :: "string \<Rightarrow> string" where
  "strip s = rev (dropWhile isspace (rev (dropWhile isspace s)))"

text \<open>\<open>s.split("\n")\<close>: the pieces between line feeds, one piece for a string without any.\<close>

fun split_nl :: "string \<Rightarrow> string list" where
  "split_nl [] = [[]]"
| "split_nl (c # cs) =
     (if c = CHR 0x0A then [] # split_nl cs
      else (case split_nl cs of [] \<Rightarrow> [[c]] | x # xs \<Rightarrow> (c # x) # xs))"

text \<open>
  \<open>urllib.parse.quote_plus\<close>: letters, digits and \<open>_.-~\<close> are kept, a space becomes
  \<open>+\<close>, and every other character is percent-encoded byte by byte in UTF-8, with
  upper-case hexadecimal digits.
\<close>

definition hex_digit :: "nat \<Rightarrow> char" where
  "hex_digit n = ''0123456789ABCDEF'' ! (n mod 16)"

definition percent_byte :: "nat \<Rightarrow> string" where
  "percent_byte b = [CHR ''%'', hex_digit (b div 16), hex_digit b]"

definition always_safe :: "char \<Rightarrow> bool" where
  "always_safe c = (let n = (of_char c :: nat) in
     (65 \<le> n \<and> n \<le> 90) \<or> (97 \<le> n \<and> n \<le> 122) \<or> (48 \<le> n \<and> n \<le> 57) \<or>
     c \<in> set ''_.-~'')"

definition quote_char :: "char \<Rightarrow> string" where
  "quote_char c = (let n = (of_char c :: nat) in
     if always_safe c then [c]
     else if c = CHR '' '' then ''+''
     else if n < 128 then percent_byte n
     else percent_byte (192 + n div 64) @ percent_byte (128 + n mod 64))"

definition quote_plus :: "string \<Rightarrow> string" where
  "quote_plus s = concat (map quote_char s)"

subsection \<open>The news table (init_db, save_article, clear_all_news)\<close>

text \<open>
  An \<open>article\<close> is the dictionary that \<open>fetch_news_google\<close> appends to its results. A \<open>row\<close>
  of the table \<open>news\<close> created by \<open>init_db\<close> has the same five TEXT columns and the column
  \<open>id INTEGER PRIMARY KEY\<close>; \<open>link\<close> is declared UNIQUE. The table is the list of its rows in
  the order of their insertion.
\<close>

record article =
  family_office :: string
  title :: string
  link :: string
  published :: string
  source :: string

record row = article +
  row_id :: int

type_synonym news_table = "row list"

text \<open>\<open>CREATE TABLE IF NOT EXISTS\<close>: a missing table is created empty, an existing one is kept.\<close>

definition init_db :: "news_table option \<Rightarrow> news_table" where
  "init_db t = (case t of None \<Rightarrow> [] | Some rows \<Rightarrow> rows)"

text \<open>
  An \<open>INTEGER PRIMARY KEY\<close> column that the INSERT leaves out gets 1 in an empty table and
  otherwise one more than the largest rowid in use; when that is the largest 64-bit integer,
  SQLite picks an unused positive rowid at random, here \<open>pick\<close> applied to the rowids in use.
\<close>

definition MAX_ROWID :: int where "MAX_ROWID = 9223372036854775807"

definition next_id :: "(int list \<Rightarrow> int) \<Rightarrow> news_table \<Rightarrow> int" where
  "next_id pick t =
     (case t of
        [] \<Rightarrow> 1
      | r # rs \<Rightarrow>
          let largest = fold max (map row_id rs) (row_id r)
          in if largest = MAX_ROWID then pick (map row_id t) else largest + 1)"

text \<open>
  \<open>save_article\<close>: the INSERT raises \<open>sqlite3.IntegrityError\<close> when a row with the same link
  exists (the UNIQUE constraint, the only constraint an insert of five strings can violate);
  the \<open>except\<close> clause swallows it and nothing is written. The five arguments are strings,
  as in every call of the program. The function returns nothing, so the model returns the
  table afterwards.
\<close>

definition save_article :: "(int list \<Rightarrow> int) \<Rightarrow> string \<Rightarrow> string \<Rightarrow> string \<Rightarrow> string \<Rightarrow> string \<Rightarrow> news_table \<Rightarrow> news_table" where
  "save_article pick fo ttl lnk published_iso src t =
     (if lnk \<in> set (map link t) then t
      else t @ [\<lparr>family_office = fo, title = ttl, link = lnk, published = published_iso,
                 source = src, row_id = next_id pick t\<rparr>])"

definition clear_all_news :: "news_table \<Rightarrow> news_table" where
  "clear_all_news t = []"

subsection \<open>Reading the table (fetch_all_news)\<close>

text \<open>
  \<open>SELECT * FROM news WHERE published >= ? ORDER BY published DESC LIMIT ?\<close>. The WHERE clause
  compares TEXT with TEXT. SQL leaves the order of rows of equal \<open>published\<close> open; ORDER BY
  is modelled as the stable descending sort of the table. A negative LIMIT is no limit in
  SQLite.
\<close>

fun insert_desc :: "row \<Rightarrow> row list \<Rightarrow> row list" where
  "insert_desc r [] = [r]"
| "insert_desc r (x # xs) =
     (if published x \<le> published r then r # x # xs else x # insert_desc r xs)"

definition order_by_published_desc :: "row list \<Rightarrow> row list" where
  "order_by_published_desc rows = foldr insert_desc rows []"

definition sql_limit :: "int \<Rightarrow> 'a list \<Rightarrow> 'a list" where
  "sql_limit n rows = (if n < 0 then rows else take (nat n) rows)"

definition select_recent :: "string \<Rightarrow> int \<Rightarrow> news_table \<Rightarrow> row list" where
  "select_recent window_start n t =
     sql_limit n (order_by_published_desc (filter (\<lambda>r. window_start \<le> published r) t))"

text \<open>
  \<open>fetch_all_news(limit=100)\<close>: the window start is the module-level constant
  \<open>NEWS_CUTOFF_DATE\<close>, passed here as \<open>cutoff\<close>; an omitted \<open>limit\<close> is \<open>None\<close>. The limit is
  bound to the second parameter of the query as a 64-bit integer: outside that range the
  binding raises OverflowError and no row is read.
\<close>

definition fetch_all_news :: "datetime \<Rightarrow> int option \<Rightarrow> news_table \<Rightarrow> row list outcome" where
  "fetch_all_news cutoff limit t =
     (let n = (case limit of None \<Rightarrow> 100 | Some n \<Rightarrow> n)
      in if n < - 9223372036854775808 \<or> 9223372036854775807 < n then Raises OverflowError
         else Returns (select_recent (isoformat cutoff) n t))"

subsection \<open>The feed provider, the clock and the timestamp normalizer\<close>

text \<open>
  What \<open>entry.get\<close> returns for the five keys the program reads: \<open>None\<close> for a missing key.
  The two structured times are tuples of integers (\<open>time.struct_time\<close>).
\<close>

record entry =
  entry_title :: "string option"
  entry_link :: "string option"
  published_parsed :: "int list option"
  updated_parsed :: "int list option"
  entry_published :: "string option"

record feed =
  bozo :: "bool option"
  entries :: "entry list"

text \<open>
  The environment of a run: \<open>feedparser.parse\<close> as a function of the URL,
  \<open>pd.to_datetime(s, utc=True).to_pydatetime()\<close> as a function of the string (a datetime in
  UTC or \<open>NaT\<close>, or \<open>None\<close> when it raises), the system clock as the sequence of the values
  that successive calls of \<open>datetime.now(timezone.utc)\<close> return, and SQLite's random choice
  of a rowid.
\<close>

record env =
  feedparser_parse :: "string \<Rightarrow> feed"
  to_datetime_utc :: "string \<Rightarrow> timestamp option"
  clock :: "nat \<Rightarrow> datetime"
  random_rowid :: "int list \<Rightarrow> int"

text \<open>
  The state a run changes: how often the clock has been read, and the table. A call of
  \<open>datetime.now(timezone.utc)\<close> returns the next value of the clock.
\<close>

record world =
  reads :: nat
  news :: news_table

definition datetime_now :: "env \<Rightarrow> nat \<Rightarrow> datetime \<times> nat" where
  "datetime_now E n = (clock E n, Suc n)"

text \<open>
  The loop \<open>for key in ("published_parsed", "updated_parsed")\<close> over the values
  \<open>entry.get(key)\<close>: a missing or empty tuple is skipped, and a tuple whose first six items
  do not build a datetime raises inside \<open>try\<close> and is passed over.
\<close>

fun try_parsed :: "int list option list \<Rightarrow> datetime option" where
  "try_parsed [] = None"
| "try_parsed (v # vs) =
     (case v of
        None \<Rightarrow> try_parsed vs
      | Some tm \<Rightarrow>
          if tm = [] then try_parsed vs
          else (case datetime_of_args (take 6 tm) of
                  Some dt \<Rightarrow> Some dt
                | None \<Rightarrow> try_parsed vs))"

text \<open>
  \<open>parse_entry_published\<close> reads and writes no state but the clock. In the third step only
  a raise falls through to the clock: a \<open>NaT\<close> that the parser returns is returned.
\<close>

definition parse_entry_published :: "env \<Rightarrow> entry \<Rightarrow> nat \<Rightarrow> timestamp \<times> nat" where
  "parse_entry_published E e n =
     (case try_parsed [published_parsed e, updated_parsed e] of
        Some dt \<Rightarrow> (Datetime dt, n)
      | None \<Rightarrow>
          (case entry_published e of
             None \<Rightarrow> (case datetime_now E n of (now, n1) \<Rightarrow> (Datetime now, n1))
           | Some s \<Rightarrow>
               if s = [] then (case datetime_now E n of (now, n1) \<Rightarrow> (Datetime now, n1))
               else (case to_datetime_utc E s of
                       Some ts \<Rightarrow> (ts, n)
                     | None \<Rightarrow> (case datetime_now E n of (now, n1) \<Rightarrow> (Datetime now, n1)))))"

subsection \<open>The fetch pipeline (fetch_news_google)\<close>

definition GOOGLE_NEWS_SUFFIX :: string where
  "GOOGLE_NEWS_SUFFIX = ''hl=en-PH&gl=PH&ceid=PH:en''"

definition feed_url :: "string \<Rightarrow> string" where
  "feed_url fo = ''https://news.google.com/rss/search?q='' @ quote_plus fo @ ''&'' @ GOOGLE_NEWS_SUFFIX"

definition getattr_bozo :: "feed \<Rightarrow> bool" where
  "getattr_bozo f = (case bozo f of None \<Rightarrow> False | Some b \<Rightarrow> b)"

text \<open>\<open>xs[:k]\<close>: the first \<open>k\<close> items, and all but the last \<open>-k\<close> when \<open>k\<close> is negative.\<close>

definition slice_to :: "'a list \<Rightarrow> int \<Rightarrow> 'a list" where
  "slice_to xs k = (if 0 \<le> k then take (nat k) xs else take (nat (int (length xs) + k)) xs)"

definition get_default :: "string option \<Rightarrow> string" where
  "get_default v = (case v of None \<Rightarrow> [] | Some s \<Rightarrow> s)"

text \<open>
  A \<open>for\<close> loop whose body may raise, on the pair of the loop's variable and the state: a
  raise leaves the loop at once, and what was written to the state before stays written.
\<close>

fun for_each :: "('x \<Rightarrow> 'r \<times> world \<Rightarrow> 'r outcome \<times> world) \<Rightarrow> 'x list \<Rightarrow> 'r \<times> world \<Rightarrow> 'r outcome \<times> world" where
  "for_each body [] st = (Returns (fst st), snd st)"
| "for_each body (x # xs) st =
     (case body x st of
        (Returns r, w) \<Rightarrow> for_each body xs (r, w)
      | (Raises err, w) \<Rightarrow> (Raises err, w))"

text \<open>
  The body of the inner loop, on the pair of \<open>results\<close> and the state. The comparison with
  the cutoff is False for \<open>NaT\<close>, so a \<open>NaT\<close> is not skipped and line 111 raises ValueError
  on it, before anything is saved or appended for this entry.
\<close>

definition process_entry :: "env \<Rightarrow> datetime \<Rightarrow> string \<Rightarrow> entry \<Rightarrow> article list \<times> world \<Rightarrow> article list outcome \<times> world" where
  "process_entry E cutoff fo e st =
     (case st of (results, w) \<Rightarrow>
        let ttl = strip (get_default (entry_title e));
            lnk = strip (get_default (entry_link e))
        in (case parse_entry_published E e (reads w) of (published_dt, n1) \<Rightarrow>
              if ts_less published_dt cutoff then (Returns results, w\<lparr>reads := n1\<rparr>)
              else
                (case astimezone_utc published_dt of
                   Raises err \<Rightarrow> (Raises err, w\<lparr>reads := n1\<rparr>)
                 | Returns utc_dt \<Rightarrow>
                     let published_iso = isoformat (replace_tzinfo_utc utc_dt);
                         src = ''Google News''
                     in (Returns (results @ [\<lparr>family_office = fo, title = ttl, link = lnk,
                                               published = published_iso, source = src\<rparr>]),
                         \<lparr>reads = n1,
                          news = save_article (random_rowid E) fo ttl lnk published_iso src
                                   (news w)\<rparr>))))"

text \<open>The body of the outer loop: a feed whose \<open>bozo\<close> flag is set is skipped.\<close>

definition process_office :: "env \<Rightarrow> datetime \<Rightarrow> int \<Rightarrow> string \<Rightarrow> article list \<times> world \<Rightarrow> article list outcome \<times> world" where
  "process_office E cutoff per_office fo st =
     (let fd = feedparser_parse E (feed_url fo)
      in if getattr_bozo fd then (Returns (fst st), snd st)
         else for_each (process_entry E cutoff fo) (slice_to (entries fd) per_office) st)"

text \<open>
  \<open>fetch_news_google(family_offices, per_office=20)\<close>; an omitted \<open>per_office\<close> is \<open>None\<close>.
  The result is what the call returns or raises, and the state it leaves.
\<close>

definition fetch_news_google :: "env \<Rightarrow> datetime \<Rightarrow> string list \<Rightarrow> int option \<Rightarrow> world \<Rightarrow> article list outcome \<times> world" where
  "fetch_news_google E cutoff family_offices per_office w =
     for_each (process_office E cutoff (case per_office of None \<Rightarrow> 20 | Some k \<Rightarrow> k))
       family_offices ([], w)"

subsection \<open>One execution of the script\<close>

text \<open>
  Line 24 of the module, \<open>NEWS_CUTOFF_DATE = datetime.now(timezone.utc) - timedelta(days=60)\<close>,
  runs once per execution of the script; \<open>None\<close> is the OverflowError of the subtraction.
\<close>

definition load_NEWS_CUTOFF_DATE :: "env \<Rightarrow> nat \<Rightarrow> datetime option \<times> nat" where
  "load_NEWS_CUTOFF_DATE E n = (case datetime_now E n of (now, n1) \<Rightarrow> (sub_days now 60, n1))"

definition DEFAULT_FAMILY_OFFICES :: "string list" where
  "DEFAULT_FAMILY_OFFICES =
     [''Rockefeller Capital Management'', ''Cascade Investment'', ''Blue Pool Capital'']"

definition offices_of_input :: "string \<Rightarrow> string list" where
  "offices_of_input family_offices_input =
     (let offices_raw = strip family_offices_input
      in if offices_raw \<noteq> [] then map strip (filter (\<lambda>fo. strip fo \<noteq> []) (split_nl offices_raw))
         else DEFAULT_FAMILY_OFFICES)"

text \<open>
  The module body from top to bottom, from the clock state and the table on disk (\<open>None\<close>
  when it does not exist yet): the cutoff, \<open>init_db()\<close>, the two buttons, and the read
  \<open>fetch_all_news(limit=200)\<close> for the display. The result is the displayed rows, or the
  exception that ends the execution (at the load of the module, or in the fetch run, after
  which nothing is read), together with the clock state and the table on disk afterwards.
\<close>

definition run_script :: "env \<Rightarrow> string \<Rightarrow> bool \<Rightarrow> bool \<Rightarrow> nat \<Rightarrow> news_table option \<Rightarrow> row list outcome \<times> nat \<times> news_table option" where
  "run_script E family_offices_input fetch_clicked clear_clicked n stored =
     (case load_NEWS_CUTOFF_DATE E n of
        (None, n1) \<Rightarrow> (Raises OverflowError, n1, stored)
      | (Some cutoff, n1) \<Rightarrow>
          let w1 = \<lparr>reads = n1, news = init_db stored\<rparr>;
              w2 = (if clear_clicked then w1\<lparr>news := clear_all_news (news w1)\<rparr> else w1)
          in if fetch_clicked
             then (case fetch_news_google E cutoff (offices_of_input family_offices_input) None w2 of
                     (Raises err, w3) \<Rightarrow> (Raises err, reads w3, Some (news w3))
                   | (Returns results, w3) \<Rightarrow>
                       (fetch_all_news cutoff (Some 200) (news w3), reads w3, Some (news w3)))
             else (fetch_all_news cutoff (Some 200) (news w2), reads w2, Some (news w2)))"

section \<open>Properties\<close>

subsection \<open>Auxiliary definitions\<close>

text \<open>\<open>zpad w k\<close> is the last \<open>w\<close> decimal digits of \<open>k\<close>; it is \<open>fmt_d w k\<close> when \<open>k\<close> fits.\<close>

fun zpad :: "nat \<Rightarrow> nat \<Rightarrow> string" where
  "zpad 0 k = []"
| "zpad (Suc w) k = zpad w (k div 10) @ [digit_char (k mod 10)]"

definition iso_zpad :: "datetime \<Rightarrow> string" where
  "iso_zpad dt =
     zpad 4 (year dt) @ ''-'' @ zpad 2 (month dt) @ ''-'' @ zpad 2 (day dt) @ ''T'' @
     zpad 2 (hour dt) @ '':'' @ zpad 2 (minute dt) @ '':'' @ zpad 2 (second dt) @
     (if microsecond dt \<noteq> 0 then ''.'' @ zpad 6 (microsecond dt) else []) @ ''+00:00''"

text \<open>
  What the environment may hand to the program: the clock and the parser return datetime
  objects, whose fields are in range.
\<close>

definition env_ok :: "env \<Rightarrow> bool" where
  "env_ok E = ((\<forall>n. valid_datetime (clock E n)) \<and>
               (\<forall>s dt. to_datetime_utc E s = Some (Datetime dt) \<longrightarrow> valid_datetime dt))"

text \<open>The ISO strings of aware UTC datetimes.\<close>

definition utc_iso :: "string \<Rightarrow> bool" where
  "utc_iso s = (\<exists>dt. valid_datetime dt \<and> s = isoformat dt)"

text \<open>
  The steps of the fallback chain in the words of the specification: a structured time that
  is present and builds a datetime, and a free-text string that is present and parses.
\<close>

definition structured_time :: "int list option \<Rightarrow> datetime option" where
  "structured_time v = (case v of None \<Rightarrow> None
     | Some tm \<Rightarrow> if tm = [] then None else datetime_of_args (take 6 tm))"

definition free_text_time :: "env \<Rightarrow> string option \<Rightarrow> timestamp option" where
  "free_text_time E v = (case v of None \<Rightarrow> None
     | Some s \<Rightarrow> if s = [] then None else to_datetime_utc E s)"

text \<open>
  The entries of a list, each with what the normalizer returns for it when they are
  normalized in order; those of them that are datetimes; the window test, the article and
  the save of the loop body; and the entries of an entity that a run goes through.
\<close>

fun considered :: "env \<Rightarrow> entry list \<Rightarrow> nat \<Rightarrow> (entry \<times> timestamp) list" where
  "considered E [] n = []"
| "considered E (e # es) n =
     (e, fst (parse_entry_published E e n)) # considered E es (snd (parse_entry_published E e n))"

fun stamped :: "(entry \<times> timestamp) list \<Rightarrow> (entry \<times> datetime) list" where
  "stamped [] = []"
| "stamped ((e, Datetime dt) # ps) = (e, dt) # stamped ps"
| "stamped ((e, NaT) # ps) = stamped ps"

definition in_window :: "datetime \<Rightarrow> entry \<times> datetime \<Rightarrow> bool" where
  "in_window cutoff p = (\<not> dt_less (snd p) cutoff)"

definition article_of :: "string \<Rightarrow> entry \<times> datetime \<Rightarrow> article" where
  "article_of fo p =
     \<lparr>family_office = fo, title = strip (get_default (entry_title (fst p))),
      link = strip (get_default (entry_link (fst p))), published = isoformat (snd p),
      source = ''Google News''\<rparr>"

definition store :: "env \<Rightarrow> article \<Rightarrow> news_table \<Rightarrow> news_table" where
  "store E a t =
     save_article (random_rowid E) (family_office a) (title a) (link a) (published a) (source a) t"

definition office_entries :: "env \<Rightarrow> int \<Rightarrow> string \<Rightarrow> entry list" where
  "office_entries E k fo =
     (if getattr_bozo (feedparser_parse E (feed_url fo)) then []
      else slice_to (entries (feedparser_parse E (feed_url fo))) k)"

definition cap_of :: "int option \<Rightarrow> int" where
  "cap_of per_office = (case per_office of None \<Rightarrow> 20 | Some k \<Rightarrow> k)"

text \<open>The list that a call returned, and no list for a call that raised.\<close>

definition returned :: "'a list outcome \<Rightarrow> 'a list" where
  "returned r = (case r of Returns xs \<Rightarrow> xs | Raises err \<Rightarrow> [])"

text \<open>
  Example data. The clock reads 2024-03-31 12:00:00.000005 when the module loads and seven
  seconds later afterwards, so the cutoff of the run is 2024-01-31 12:00:00.000005. The feed
  of Acme Capital has entries dated 5, 70 and 10 days before the load; the feed of Broken
  Office is flagged malformed; the feed of Edge Partners has an entry exactly at the cutoff,
  one a microsecond older, and one without any usable time field; the feed of Nat Partners
  has a recent entry, then an entry whose only time field is the string \<open>NaT\<close>, then another
  recent entry.
\<close>

definition now0 :: datetime where
  "now0 = \<lparr>year = 2024, month = 3, day = 31, hour = 12, minute = 0, second = 0, microsecond = 5\<rparr>"

definition now1 :: datetime where
  "now1 = \<lparr>year = 2024, month = 3, day = 31, hour = 12, minute = 0, second = 7, microsecond = 5\<rparr>"

definition cutoff0 :: datetime where
  "cutoff0 = \<lparr>year = 2024, month = 1, day = 31, hour = 12, minute = 0, second = 0, microsecond = 5\<rparr>"

definition just_older0 :: datetime where
  "just_older0 = \<lparr>year = 2024, month = 1, day = 31, hour = 12, minute = 0, second = 0, microsecond = 4\<rparr>"

definition entry_5_days :: entry where
  "entry_5_days = \<lparr>entry_title = Some '' Acme raises fund '', entry_link = Some ''https://x/1'',
     published_parsed = Some [2024, 3, 26, 12, 0, 0, 1, 86, 0], updated_parsed = None,
     entry_published = Some ''Tue, 26 Mar 2024 12:00:00 GMT''\<rparr>"

definition entry_70_days :: entry where
  "entry_70_days = \<lparr>entry_title = Some ''Acme in January'', entry_link = Some ''https://x/2'',
     published_parsed = Some [2024, 1, 21, 12, 0, 0, 6, 21, 0], updated_parsed = None,
     entry_published = Some ''Sun, 21 Jan 2024 12:00:00 GMT''\<rparr>"

definition entry_10_days :: entry where
  "entry_10_days = \<lparr>entry_title = Some ''Acme hires'', entry_link = Some ''https://x/3'',
     published_parsed = Some [2024, 3, 21, 12, 0, 0, 3, 81, 0], updated_parsed = None,
     entry_published = Some ''Thu, 21 Mar 2024 12:00:00 GMT''\<rparr>"

definition entry_boundary :: entry where
  "entry_boundary = \<lparr>entry_title = Some ''At the cutoff'', entry_link = Some ''https://x/4'',
     published_parsed = None, updated_parsed = None,
     entry_published = Some ''2024-01-31T12:00:00.000005Z''\<rparr>"

definition entry_just_older :: entry where
  "entry_just_older = \<lparr>entry_title = Some ''Just older'', entry_link = Some ''https://x/5'',
     published_parsed = None, updated_parsed = None,
     entry_published = Some ''2024-01-31T12:00:00.000004Z''\<rparr>"

definition entry_undated :: entry where
  "entry_undated = \<lparr>entry_title = None, entry_link = Some ''https://x/6'',
     published_parsed = Some [2024, 2, 30, 12, 0, 0, 4, 61, 0], updated_parsed = Some [],
     entry_published = Some ''not a date''\<rparr>"

definition entry_nat :: entry where
  "entry_nat = \<lparr>entry_title = Some ''No date'', entry_link = Some ''https://x/7'',
     published_parsed = None, updated_parsed = None, entry_published = Some ''NaT''\<rparr>"

definition example_to_datetime :: "string \<Rightarrow> timestamp option" where
  "example_to_datetime s =
     (if s = ''2024-01-31T12:00:00.000005Z'' then Some (Datetime cutoff0)
      else if s = ''2024-01-31T12:00:00.000004Z'' then Some (Datetime just_older0)
      else if s = ''NaT'' then Some NaT
      else None)"

definition example_feeds :: "string \<Rightarrow> feed" where
  "example_feeds u =
     (if u = feed_url ''Acme Capital''
      then \<lparr>bozo = Some False, entries = [entry_5_days, entry_70_days, entry_10_days]\<rparr>
      else if u = feed_url ''Broken Office''
      then \<lparr>bozo = Some True, entries = [entry_5_days]\<rparr>
      else if u = feed_url ''Edge Partners''
      then \<lparr>bozo = Some False, entries = [entry_boundary, entry_just_older, entry_undated]\<rparr>
      else if u = feed_url ''Nat Partners''
      then \<lparr>bozo = Some False, entries = [entry_5_days, entry_nat, entry_10_days]\<rparr>
      else \<lparr>bozo = None, entries = []\<rparr>)"

fun first_unused_from :: "nat \<Rightarrow> int \<Rightarrow> int list \<Rightarrow> int" where
  "first_unused_from 0 i used = i"
| "first_unused_from (Suc k) i used =
     (if i \<in> set used then first_unused_from k (i + 1) used else i)"

definition first_unused :: "int list \<Rightarrow> int" where
  "first_unused used = first_unused_from (length used) 1 used"

definition example_env :: env where
  "example_env = \<lparr>feedparser_parse = example_feeds, to_datetime_utc = example_to_datetime,
     clock = (\<lambda>n. if n = 0 then now0 else now1), random_rowid = first_unused\<rparr>"

definition first_row :: row where
  "first_row = \<lparr>family_office = ''Acme Capital'', title = ''First title'', link = ''https://x/1'',
     published = ''2024-03-26T12:00:00+00:00'', source = ''Google News'', row_id = 1\<rparr>"

text \<open>The environment in which every feed is cut to its first \<open>m\<close> entries.\<close>

definition truncate_feeds :: "nat \<Rightarrow> env \<Rightarrow> env" where
  "truncate_feeds m E =
     E\<lparr>feedparser_parse := (\<lambda>u. (feedparser_parse E u)\<lparr>entries := take m (entries (feedparser_parse E u))\<rparr>)\<rparr>"

text \<open>An environment whose feeds all hold 25 copies of one recent entry.\<close>

definition crowded_env :: env where
  "crowded_env = example_env\<lparr>feedparser_parse :=
     (\<lambda>u. \<lparr>bozo = Some False, entries = replicate 25 entry_10_days\<rparr>)\<rparr>"

text \<open>What a user does to the table: a fetch run with its cutoff, or a clear.\<close>

datatype action = Fetch datetime "string list" "int option" | Clear

fun act :: "env \<Rightarrow> action \<Rightarrow> world \<Rightarrow> world" where
  "act E (Fetch c fos k) w = snd (fetch_news_google E c fos k w)"
| "act E Clear w = w\<lparr>news := clear_all_news (news w)\<rparr>"

definition boundary_row :: row where
  "boundary_row = \<lparr>family_office = ''Edge Partners'', title = ''At the cutoff'',
     link = ''https://x/4'', published = ''2024-01-31T12:00:00.000005+00:00'',
     source = ''Google News'', row_id = 2\<rparr>"

definition stale_row :: row where
  "stale_row = \<lparr>family_office = ''Edge Partners'', title = ''Just older'',
     link = ''https://x/5'', published = ''2024-01-31T12:00:00.000004+00:00'',
     source = ''Google News'', row_id = 3\<rparr>"

definition undated_row :: row where
  "undated_row = \<lparr>family_office = ''Edge Partners'', title = [], link = ''https://x/6'',
     published = ''2024-03-31T12:00:07.000005+00:00'', source = ''Google News'', row_id = 3\<rparr>"

definition world1 :: world where
  "world1 = \<lparr>reads = 1, news = [first_row]\<rparr>"

text \<open>
  A table of 201 records of the window: the record at the cutoff and 200 newer ones.
\<close>

definition newer_row :: "nat \<Rightarrow> row" where
  "newer_row i = \<lparr>family_office = ''Acme Capital'', title = ''Acme again'',
     link = ''https://y/'' @ zpad 3 i, published = ''2024-03-26T12:00:00+00:00'',
     source = ''Google News'', row_id = int i + 3\<rparr>"

definition crowded_table :: news_table where
  "crowded_table = boundary_row # map newer_row [0..<200]"

text \<open>
  The read as the specification words it: the window start is recomputed from the clock at
  the time of the read.
\<close>

definition list_recent_at_read_time :: "env \<Rightarrow> nat \<Rightarrow> int \<Rightarrow> news_table \<Rightarrow> row list option" where
  "list_recent_at_read_time E n limit t =
     (case datetime_now E n of (now, n1) \<Rightarrow>
        map_option (\<lambda>window_start. select_recent (isoformat window_start) limit t) (sub_days now 60))"

text \<open>
  The invariant of a run: the articles collected so far and the records of the table carry
  ISO strings of UTC datetimes.
\<close>

definition all_utc :: "article list \<Rightarrow> world \<Rightarrow> bool" where
  "all_utc res w = ((\<forall>a\<in>set res. utc_iso (published a)) \<and>
                    (\<forall>r\<in>set (news w). utc_iso (published r)))"

definition news_utc :: "world \<Rightarrow> bool" where
  "news_utc w = (\<forall>r\<in>set (news w). utc_iso (published r))"


subsection \<open>ISO strings of valid datetimes are ordered as the datetimes\<close>

lemma length_zpad [simp]: "length (zpad w k) = w"
  by (induction w arbitrary: k) auto

lemma digit_char_0: "digit_char 0 = CHR ''0''"
  by code_simp

lemma zpad_zero: "zpad w 0 = replicate w (CHR ''0'')"
  by (induction w) (auto simp: digit_char_0 replicate_append_same)

lemma div10_bound: "k < 10 ^ Suc w \<Longrightarrow> k div 10 < (10::nat) ^ w"
  by (simp add: less_mult_imp_div_less mult.commute)

lemma fmt_d_zpad: "0 < w \<Longrightarrow> k < 10 ^ w \<Longrightarrow> fmt_d w k = zpad w k"
proof (induction w k rule: fmt_d.induct)
  case (1 w k)
  obtain v where w: "w = Suc v" using "1.prems"(1) by (cases w) auto
  show ?case
  proof (cases "k < 10")
    case True
    then show ?thesis
      by (subst fmt_d.simps) (simp add: w zpad_zero)
  next
    case False
    with "1.prems" w have v: "0 < v" by (cases v) auto
    from "1.prems" w have "k div 10 < 10 ^ v" by (simp add: div10_bound)
    with "1.IH" False v w have "fmt_d v (k div 10) = zpad v (k div 10)" by simp
    with False show ?thesis
      by (subst fmt_d.simps) (simp add: w)
  qed
qed

lemma append_less_same_length:
  "length xs = length ys \<Longrightarrow> (xs @ u < ys @ v) = (xs < ys \<or> xs = ys \<and> u < v)"
  for xs ys :: "'a::linorder list"
  by (induction xs ys rule: list_induct2) auto

lemma digit_char_less: "d < 10 \<Longrightarrow> e < 10 \<Longrightarrow> (digit_char d < digit_char e) = (d < e)"
  by (simp add: digit_char_def less_char_def)

lemma digit_char_eq: "d < 10 \<Longrightarrow> e < 10 \<Longrightarrow> (digit_char d = digit_char e) = (d = e)"
  using digit_char_less [of d e] digit_char_less [of e d] by auto

lemma nat_eq_div_mod10: "((a::nat) = b) = (a div 10 = b div 10 \<and> a mod 10 = b mod 10)"
  by (metis div_mult_mod_eq)

lemma nat_less_div_mod10:
  "((a::nat) < b) = (a div 10 < b div 10 \<or> a div 10 = b div 10 \<and> a mod 10 < b mod 10)"
proof -
  have a: "a = 10 * (a div 10) + a mod 10" and b: "b = 10 * (b div 10) + b mod 10"
    by simp_all
  have r: "a mod 10 < 10" "b mod 10 < 10" by simp_all
  show ?thesis
    using a b r by linarith
qed

lemma zpad_eq_iff: "a < 10 ^ w \<Longrightarrow> b < 10 ^ w \<Longrightarrow> (zpad w a = zpad w b) = (a = b)"
proof (induction w arbitrary: a b)
  case 0
  then show ?case by simp
next
  case (Suc w)
  from Suc.prems have "a div 10 < 10 ^ w" "b div 10 < 10 ^ w"
    by (simp_all add: div10_bound)
  with Suc.IH have "(zpad w (a div 10) = zpad w (b div 10)) = (a div 10 = b div 10)" by simp
  moreover have "(digit_char (a mod 10) = digit_char (b mod 10)) = (a mod 10 = b mod 10)"
    by (simp add: digit_char_eq)
  ultimately show ?case using nat_eq_div_mod10 [of a b] by simp
qed

lemma zpad_less_iff: "a < 10 ^ w \<Longrightarrow> b < 10 ^ w \<Longrightarrow> (zpad w a < zpad w b) = (a < b)"
proof (induction w arbitrary: a b)
  case 0
  then show ?case by simp
next
  case (Suc w)
  from Suc.prems have bnd: "a div 10 < 10 ^ w" "b div 10 < 10 ^ w"
    by (simp_all add: div10_bound)
  have "(zpad (Suc w) a < zpad (Suc w) b) =
        (a div 10 < b div 10 \<or> a div 10 = b div 10 \<and> a mod 10 < b mod 10)"
    using Suc.IH [OF bnd] zpad_eq_iff [OF bnd]
    by (simp add: append_less_same_length digit_char_less)
  then show ?case using nat_less_div_mod10 [of a b] by simp
qed

lemma days_in_month_le: "1 \<le> m \<Longrightarrow> m \<le> 12 \<Longrightarrow> days_in_month y m \<le> 31"
proof -
  assume "1 \<le> m" "m \<le> 12"
  then have "m \<in> {1,2,3,4,5,6,7,8,9,10,11,12}" by simp arith
  then show ?thesis
    by (auto simp: days_in_month_def DAYS_IN_MONTH_def)
qed

lemma valid_datetime_digits:
  assumes "valid_datetime dt"
  shows "year dt < 10 ^ 4" "month dt < 10 ^ 2" "day dt < 10 ^ 2" "hour dt < 10 ^ 2"
    "minute dt < 10 ^ 2" "second dt < 10 ^ 2" "microsecond dt < 10 ^ 6"
proof -
  from assms have "days_in_month (int (year dt)) (int (month dt)) \<le> 31"
    by (intro days_in_month_le) (auto simp: valid_datetime_def)
  with assms show "day dt < 10 ^ 2" by (simp add: valid_datetime_def)
qed (use assms in \<open>simp_all add: valid_datetime_def\<close>)

lemma isoformat_iso_zpad: "valid_datetime dt \<Longrightarrow> isoformat dt = iso_zpad dt"
  using valid_datetime_digits [of dt]
  by (simp add: isoformat_def iso_zpad_def fmt_d_zpad)

lemma usec_tail_less:
  assumes "a < 10 ^ 6" "b < 10 ^ 6"
  shows "((if a \<noteq> 0 then ''.'' @ zpad 6 a else []) @ ''+00:00''
          < (if b \<noteq> 0 then ''.'' @ zpad 6 b else []) @ ''+00:00'') = (a < b)"
  using assms by (simp add: append_less_same_length zpad_less_iff)

lemma iso_zpad_less_iff:
  assumes "valid_datetime a" "valid_datetime b"
  shows "(iso_zpad a < iso_zpad b) = dt_less a b"
  using valid_datetime_digits [OF assms(1)] valid_datetime_digits [OF assms(2)]
  unfolding iso_zpad_def dt_less_def dt_tuple_def
  by (simp add: append_less_same_length zpad_less_iff zpad_eq_iff usec_tail_less del: zpad.simps)

lemma isoformat_less_iff:
  "valid_datetime a \<Longrightarrow> valid_datetime b \<Longrightarrow> (isoformat a < isoformat b) = dt_less a b"
  by (simp add: isoformat_iso_zpad iso_zpad_less_iff)

lemma isoformat_le_iff:
  "valid_datetime a \<Longrightarrow> valid_datetime b \<Longrightarrow> (isoformat a \<le> isoformat b) = (\<not> dt_less b a)"
  using isoformat_less_iff [of b a] by (metis not_less)

lemma valid_datetime_new: "datetime_new y m d hh mm ss us = Some dt \<Longrightarrow> valid_datetime dt"
  by (auto simp: datetime_new_def valid_datetime_def MINYEAR_def MAXYEAR_def split: if_splits)

lemma valid_datetime_of_args: "datetime_of_args xs = Some dt \<Longrightarrow> valid_datetime dt"
  by (induction xs rule: datetime_of_args.induct) (auto dest: valid_datetime_new)

lemma valid_sub_days: "sub_days dt k = Some dt' \<Longrightarrow> valid_datetime dt'"
  by (auto simp: sub_days_def Let_def dest: valid_datetime_new split: if_splits prod.splits)

subsection \<open>The table keeps its links distinct\<close>

lemma save_article_distinct:
  "distinct (map link t) \<Longrightarrow> distinct (map link (save_article pick fo ttl lnk p src t))"
  by (simp add: save_article_def)

lemma filter_key_distinct:
  "distinct (map f xs) \<Longrightarrow> r \<in> set xs \<Longrightarrow> filter (\<lambda>x. f x = f r) xs = [r]"
proof (induction xs)
  case Nil
  then show ?case by simp
next
  case (Cons x xs)
  show ?case
  proof (cases "x = r")
    case True
    with Cons.prems have "f r \<notin> f ` set xs" by simp
    then have "\<forall>y\<in>set xs. f y \<noteq> f r" by (metis imageI)
    then have "filter (\<lambda>y. f y = f r) xs = []" by (simp add: filter_empty_conv)
    with True show ?thesis by simp
  next
    case False
    with Cons.prems have "r \<in> set xs" "f x \<noteq> f r" by force+
    with Cons show ?thesis by simp
  qed
qed

text \<open>
  C2. A save whose link a stored record already has changes nothing and raises nothing: the
  table afterwards is the table before, and its only record with that link is the stored
  one, with all its fields (whatever title and other fields the second save carried).
\<close>

theorem save_article_same_link_is_noop:
  assumes "distinct (map link t)" and "r \<in> set t" and "link r = lnk"
  shows "save_article pick fo ttl lnk published_iso src t = t \<and>
         filter (\<lambda>x. link x = lnk) (save_article pick fo ttl lnk published_iso src t) = [r]"
proof -
  from assms have "lnk \<in> set (map link t)" by force
  then have same: "save_article pick fo ttl lnk published_iso src t = t"
    by (simp add: save_article_def)
  from assms have "filter (\<lambda>x. link x = link r) t = [r]"
    by (intro filter_key_distinct)
  with same assms(3) show ?thesis by simp
qed

theorem save_article_same_link_is_noop_witness:
  "save_article first_unused ''Acme Capital'' ''First title'' ''https://x/1''
     ''2024-03-26T12:00:00+00:00'' ''Google News'' [] = [first_row] \<and>
   distinct (map link [first_row]) \<and> first_row \<in> set [first_row] \<and>
   link first_row = ''https://x/1'' \<and>
   save_article first_unused ''Acme Capital'' ''Second title'' ''https://x/1''
     ''2024-03-27T08:30:00+00:00'' ''Google News'' [first_row] = [first_row] \<and>
   filter (\<lambda>x. link x = ''https://x/1'')
     (save_article first_unused ''Acme Capital'' ''Second title'' ''https://x/1''
        ''2024-03-27T08:30:00+00:00'' ''Google News'' [first_row]) = [first_row] \<and>
   title first_row = ''First title''"
proof -
  have first: "save_article first_unused ''Acme Capital'' ''First title'' ''https://x/1''
      ''2024-03-26T12:00:00+00:00'' ''Google News'' [] = [first_row]"
    by (simp add: save_article_def next_id_def first_row_def)
  have h: "distinct (map link [first_row])" "first_row \<in> set [first_row]"
    "link first_row = ''https://x/1''"
    by (simp_all add: first_row_def)
  from save_article_same_link_is_noop [OF h] first h show ?thesis
    by (simp add: first_row_def)
qed

subsection \<open>The timestamp normalizer\<close>

lemma example_env_ok: "env_ok example_env"
  by (auto simp: env_ok_def example_env_def example_to_datetime_def now0_def now1_def cutoff0_def
      just_older0_def valid_datetime_def days_in_month_def DAYS_IN_MONTH_def is_leap_def
      split: if_splits)

lemma try_parsed_two:
  "try_parsed [a, b] =
     (case structured_time a of Some dt \<Rightarrow> Some dt | None \<Rightarrow> structured_time b)"
  by (simp add: structured_time_def split: option.splits)

lemma valid_structured_time: "structured_time v = Some dt \<Longrightarrow> valid_datetime dt"
  by (auto simp: structured_time_def split: option.splits if_splits dest: valid_datetime_of_args)

text \<open>
  The normalizer never raises, and what it returns is the first success of the chain; the
  third step succeeds with whatever the parser returns, a datetime or \<open>NaT\<close>.
\<close>

lemma parse_entry_published_chain:
  "fst (parse_entry_published E e n) =
     (case structured_time (published_parsed e) of
        Some dt \<Rightarrow> Datetime dt
      | None \<Rightarrow>
          (case structured_time (updated_parsed e) of
             Some dt \<Rightarrow> Datetime dt
           | None \<Rightarrow>
               (case free_text_time E (entry_published e) of
                  Some ts \<Rightarrow> ts
                | None \<Rightarrow> Datetime (clock E n))))"
  unfolding parse_entry_published_def try_parsed_two
  by (cases "structured_time (published_parsed e)"; cases "structured_time (updated_parsed e)";
      cases "entry_published e")
     (simp_all add: free_text_time_def datetime_now_def split: option.splits)

lemma valid_parse_entry_published:
  assumes "env_ok E" and "fst (parse_entry_published E e n) = Datetime dt"
  shows "valid_datetime dt"
proof -
  from assms(1) have c: "valid_datetime (clock E n)"
    and t: "\<And>s dt. to_datetime_utc E s = Some (Datetime dt) \<Longrightarrow> valid_datetime dt"
    by (auto simp: env_ok_def)
  from assms(2) show ?thesis
    unfolding parse_entry_published_chain
    by (auto simp: c free_text_time_def split: option.splits if_splits
        dest: valid_structured_time t)
qed

lemma isoformat_suffix: "\<exists>p. isoformat dt = p @ ''+00:00''"
proof -
  have "isoformat dt = (fmt_d 4 (year dt) @ ''-'' @ fmt_d 2 (month dt) @ ''-'' @ fmt_d 2 (day dt) @ ''T'' @
     fmt_d 2 (hour dt) @ '':'' @ fmt_d 2 (minute dt) @ '':'' @ fmt_d 2 (second dt) @
     (if microsecond dt \<noteq> 0 then ''.'' @ fmt_d 6 (microsecond dt) else [])) @ ''+00:00''"
    by (simp add: isoformat_def)
  then show ?thesis by blast
qed

text \<open>
  C3 does not hold of the code. For an entry whose only time field is the free-text string
  \<open>NaT\<close>, the parser returns \<open>NaT\<close> without raising, so the normalizer returns \<open>NaT\<close>, which
  is no timestamp; the comparison with the cutoff is then False and line 111 raises
  ValueError.
\<close>

theorem normalizer_returns_NaT:
  "structured_time (published_parsed entry_nat) = None \<and>
   structured_time (updated_parsed entry_nat) = None \<and>
   free_text_time example_env (entry_published entry_nat) = Some NaT \<and>
   parse_entry_published example_env entry_nat 1 = (NaT, 1) \<and>
   process_entry example_env cutoff0 ''Nat Partners'' entry_nat ([], world1) =
     (Raises ValueError, world1)"
  by code_simp

subsection \<open>The fetch pipeline\<close>

lemma process_entry_eq:
  "process_entry E c fo e (res, w) =
     (case parse_entry_published E e (reads w) of
        (NaT, n1) \<Rightarrow> (Raises ValueError, w\<lparr>reads := n1\<rparr>)
      | (Datetime dt, n1) \<Rightarrow>
          if dt_less dt c then (Returns res, w\<lparr>reads := n1\<rparr>)
          else (Returns (res @ [article_of fo (e, dt)]),
                \<lparr>reads = n1, news = store E (article_of fo (e, dt)) (news w)\<rparr>))"
  by (simp add: process_entry_def article_of_def store_def Let_def ts_less_def
      astimezone_utc_def replace_tzinfo_utc_def split: prod.splits timestamp.splits)

lemma process_office_entries:
  "process_office E c k fo st = for_each (process_entry E c fo) (office_entries E k fo) st"
  by (simp add: process_office_def office_entries_def Let_def)

lemma process_office_bozo:
  "getattr_bozo (feedparser_parse E (feed_url a)) \<Longrightarrow>
   process_office E c k a st = (Returns (fst st), snd st)"
  by (simp add: process_office_def Let_def)

lemma for_each_append:
  "for_each body (xs @ ys) st =
     (case for_each body xs st of
        (Returns r, w) \<Rightarrow> for_each body ys (r, w)
      | (Raises err, w) \<Rightarrow> (Raises err, w))"
  by (induction xs arbitrary: st) (auto split: prod.splits outcome.splits)

lemma for_each_cong:
  "(\<And>x st. x \<in> set xs \<Longrightarrow> body x st = body' x st) \<Longrightarrow>
   for_each body xs st = for_each body' xs st"
  by (induction xs arbitrary: st) (auto split: prod.splits outcome.splits)

text \<open>
  The run without a malformed entity is the same run: the same result or the same
  exception, and the same state.
\<close>

lemma fetch_news_google_skip:
  assumes "getattr_bozo (feedparser_parse E (feed_url a))"
  shows "fetch_news_google E c (xs @ a # ys) k w = fetch_news_google E c (xs @ ys) k w"
  by (simp add: fetch_news_google_def for_each_append process_office_bozo [OF assms]
      split: prod.splits outcome.splits)

lemma in_window_pair [simp]: "in_window c (e, dt) = (\<not> dt_less dt c)"
  by (simp add: in_window_def)

text \<open>The result of the inner loop: it raises exactly when a considered entry is \<open>NaT\<close>.\<close>

lemma for_each_process_entry:
  "fst (for_each (process_entry E c fo) es (res, w)) =
     (if NaT \<in> snd ` set (considered E es (reads w)) then Raises ValueError
      else Returns (res @ map (article_of fo)
             (filter (in_window c) (stamped (considered E es (reads w))))))"
proof (induction es arbitrary: res w)
  case Nil
  then show ?case by simp
next
  case (Cons e es)
  obtain ts n1 where p: "parse_entry_published E e (reads w) = (ts, n1)"
    by (cases "parse_entry_published E e (reads w)")
  show ?case
  proof (cases ts)
    case NaT
    with p show ?thesis by (simp add: process_entry_eq)
  next
    case (Datetime dt)
    with p Cons.IH show ?thesis
      by (simp add: process_entry_eq)
  qed
qed



text \<open>
  C4 does not hold of the code. The malformed feed itself is skipped as the claim says
  (the run without that entity is the same run), but the run over a malformed Broken Office
  and a well-formed Nat Partners does not return the in-window entries of Nat Partners: it
  saves the first entry and raises ValueError on the second, whose only time field is the
  string \<open>NaT\<close>.
\<close>

theorem run_raises_behind_malformed_feed:
  "getattr_bozo (feedparser_parse example_env (feed_url ''Broken Office'')) \<and>
   getattr_bozo (feedparser_parse example_env (feed_url ''Nat Partners'')) = False \<and>
   entries (feedparser_parse example_env (feed_url ''Nat Partners'')) =
     [entry_5_days, entry_nat, entry_10_days] \<and>
   fetch_news_google example_env cutoff0 [''Broken Office'', ''Nat Partners''] None
     \<lparr>reads = 1, news = []\<rparr> =
     (Raises ValueError,
      \<lparr>reads = 1,
         news = [\<lparr>family_office = ''Nat Partners'', title = ''Acme raises fund'',
                   link = ''https://x/1'', published = ''2024-03-26T12:00:00+00:00'',
                   source = ''Google News'', row_id = 1\<rparr>]\<rparr>)"
  by code_simp

text \<open>
  C7 does not hold of the code. The run over Nat Partners returns no list: after the first
  entry has passed the filter and has been saved, the second entry, whose only time field is
  the string \<open>NaT\<close>, makes line 111 raise ValueError, and the third entry is never reached.
\<close>

theorem run_raises_and_returns_no_list:
  "fetch_news_google example_env cutoff0 [''Nat Partners''] (Some 3) \<lparr>reads = 1, news = []\<rparr> =
     (Raises ValueError,
      \<lparr>reads = 1,
         news = [\<lparr>family_office = ''Nat Partners'', title = ''Acme raises fund'',
                   link = ''https://x/1'', published = ''2024-03-26T12:00:00+00:00'',
                   source = ''Google News'', row_id = 1\<rparr>]\<rparr>) \<and>
   fetch_news_google example_env cutoff0 [''Nat Partners''] (Some 1) \<lparr>reads = 1, news = []\<rparr> =
     (Returns [\<lparr>family_office = ''Nat Partners'', title = ''Acme raises fund'',
                 link = ''https://x/1'', published = ''2024-03-26T12:00:00+00:00'',
                 source = ''Google News''\<rparr>],
      \<lparr>reads = 1,
         news = [\<lparr>family_office = ''Nat Partners'', title = ''Acme raises fund'',
                   link = ''https://x/1'', published = ''2024-03-26T12:00:00+00:00'',
                   source = ''Google News'', row_id = 1\<rparr>]\<rparr>)"
  by code_simp

subsection \<open>The per-entity cap\<close>

lemma slice_to_nonneg: "0 \<le> k \<Longrightarrow> slice_to xs k = take (nat k) xs"
  by (simp add: slice_to_def)

lemma length_considered [simp]: "length (considered E es n) = length es"
  by (induction es arbitrary: n) auto

lemma length_stamped: "length (stamped ps) \<le> length ps"
  by (induction ps rule: stamped.induct) auto

lemma length_office_entries: "0 \<le> k \<Longrightarrow> length (office_entries E k fo) \<le> nat k"
  by (simp add: office_entries_def slice_to_def)

lemma length_for_each_process_entry:
  "length (returned (fst (for_each (process_entry E c fo) es (res, w)))) \<le> length res + length es"
proof -
  have "length (filter (in_window c) (stamped (considered E es (reads w))))
      \<le> length (stamped (considered E es (reads w)))"
    by (rule length_filter_le)
  also have "\<dots> \<le> length (considered E es (reads w))"
    by (rule length_stamped)
  finally have "length (filter (in_window c) (stamped (considered E es (reads w)))) \<le> length es"
    by simp
  then show ?thesis
    by (simp add: for_each_process_entry returned_def)
qed

lemma length_process_office:
  assumes "0 \<le> k"
  shows "length (returned (fst (process_office E c k fo (res, w)))) \<le> length res + nat k"
  using length_for_each_process_entry [of E c fo "office_entries E k fo" res w]
    length_office_entries [OF assms, of E fo]
  by (simp add: process_office_entries)

lemma length_for_each_process_office:
  assumes "0 \<le> k"
  shows "length (returned (fst (for_each (process_office E c k) fos (res, w))))
           \<le> length res + nat k * length fos"
proof (induction fos arbitrary: res w)
  case Nil
  then show ?case by (simp add: returned_def)
next
  case (Cons fo fos)
  obtain r w' where p: "process_office E c k fo (res, w) = (r, w')"
    by (cases "process_office E c k fo (res, w)")
  show ?case
  proof (cases r)
    case (Raises err)
    with p show ?thesis by (simp add: returned_def)
  next
    case (Returns res')
    with p length_process_office [OF assms, of E c fo res w]
    have "length res' \<le> length res + nat k" by (simp add: returned_def)
    with Cons.IH [of res' w'] p Returns show ?thesis by simp
  qed
qed

lemma datetime_now_truncate [simp]: "datetime_now (truncate_feeds m E) = datetime_now E"
  by (rule ext) (simp add: truncate_feeds_def datetime_now_def)

lemma to_datetime_utc_truncate [simp]: "to_datetime_utc (truncate_feeds m E) = to_datetime_utc E"
  by (simp add: truncate_feeds_def)

lemma random_rowid_truncate [simp]: "random_rowid (truncate_feeds m E) = random_rowid E"
  by (simp add: truncate_feeds_def)

lemma parse_entry_published_truncate [simp]:
  "parse_entry_published (truncate_feeds m E) e n = parse_entry_published E e n"
  unfolding parse_entry_published_def datetime_now_truncate to_datetime_utc_truncate
  by (rule refl)

lemma process_entry_truncate [simp]:
  "process_entry (truncate_feeds m E) c fo = process_entry E c fo"
  unfolding process_entry_def parse_entry_published_truncate random_rowid_truncate
  by (rule refl)

lemma office_entries_truncate:
  "0 \<le> k \<Longrightarrow> office_entries (truncate_feeds (nat k) E) k fo = office_entries E k fo"
  by (simp add: office_entries_def truncate_feeds_def getattr_bozo_def slice_to_def)

lemma process_office_truncate:
  "0 \<le> k \<Longrightarrow> process_office (truncate_feeds (nat k) E) c k = process_office E c k"
  by (intro ext) (simp add: process_office_entries office_entries_truncate)

lemma fetch_news_google_truncate:
  "0 \<le> cap_of k \<Longrightarrow>
   fetch_news_google (truncate_feeds (nat (cap_of k)) E) c fos k w = fetch_news_google E c fos k w"
  using process_office_truncate [of "cap_of k" E c]
  by (simp add: fetch_news_google_def cap_of_def)

text \<open>
  C10. Without an explicit \<open>per_office\<close> the cap is 20: the run is the run with the cap 20,
  for every entity the entries that the run goes through are the first 20 of its feed (none
  for a malformed feed), entries after the twentieth have no effect on the result or on the
  state, and at most 20 articles per entity are returned.
\<close>

theorem default_cap_is_20:
  "fetch_news_google E c fos None w = fetch_news_google E c fos (Some 20) w \<and>
   office_entries E (cap_of None) fo =
     (if getattr_bozo (feedparser_parse E (feed_url fo)) then []
      else take 20 (entries (feedparser_parse E (feed_url fo)))) \<and>
   process_office E c (cap_of None) fo st =
     for_each (process_entry E c fo) (office_entries E (cap_of None) fo) st \<and>
   fetch_news_google (truncate_feeds 20 E) c fos None w = fetch_news_google E c fos None w \<and>
   length (returned (fst (fetch_news_google E c fos None w))) \<le> 20 * length fos"
proof -
  have k: "(0::int) \<le> 20" by simp
  have 1: "fetch_news_google E c fos None w = fetch_news_google E c fos (Some 20) w"
    by (simp add: fetch_news_google_def)
  have 2: "office_entries E (cap_of None) fo =
     (if getattr_bozo (feedparser_parse E (feed_url fo)) then []
      else take 20 (entries (feedparser_parse E (feed_url fo))))"
    by (simp add: office_entries_def cap_of_def slice_to_def)
  have 3: "fetch_news_google (truncate_feeds 20 E) c fos None w = fetch_news_google E c fos None w"
    using fetch_news_google_truncate [of None E c fos w] by (simp add: cap_of_def)
  have 4: "length (returned (fst (fetch_news_google E c fos None w))) \<le> 20 * length fos"
    using length_for_each_process_office [OF k, of E c fos "[]" w]
    by (simp add: fetch_news_google_def)
  from 1 2 3 4 process_office_entries show ?thesis by blast
qed

theorem default_cap_is_20_witness:
  "length (entries (feedparser_parse crowded_env (feed_url ''Acme Capital''))) = 25 \<and>
   office_entries crowded_env (cap_of None) ''Acme Capital'' = replicate 20 entry_10_days \<and>
   fetch_news_google crowded_env cutoff0 [''Acme Capital''] None \<lparr>reads = 1, news = []\<rparr> =
   fetch_news_google crowded_env cutoff0 [''Acme Capital''] (Some 20) \<lparr>reads = 1, news = []\<rparr> \<and>
   length (returned (fst (fetch_news_google crowded_env cutoff0 [''Acme Capital''] None
     \<lparr>reads = 1, news = []\<rparr>))) \<le> 20"
proof -
  have a: "feedparser_parse crowded_env (feed_url ''Acme Capital'') =
      \<lparr>bozo = Some False, entries = replicate 25 entry_10_days\<rparr>"
    by (simp add: crowded_env_def)
  from default_cap_is_20 [of crowded_env cutoff0 "[''Acme Capital'']" "\<lparr>reads = 1, news = []\<rparr>"
      "''Acme Capital''" "([], \<lparr>reads = 1, news = []\<rparr>)"]
  show ?thesis by (auto simp: a getattr_bozo_def)
qed



subsection \<open>Every stored timestamp is the ISO string of a UTC datetime\<close>

lemma utc_iso_suffix: "utc_iso s \<Longrightarrow> \<exists>p. s = p @ ''+00:00''"
  using isoformat_suffix by (auto simp: utc_iso_def)

lemma utc_iso_store:
  "utc_iso (published a) \<Longrightarrow> \<forall>r\<in>set t. utc_iso (published r) \<Longrightarrow>
   \<forall>r\<in>set (store E a t). utc_iso (published r)"
  by (auto simp: store_def save_article_def)

text \<open>
  An invariant of a loop: \<open>I\<close> holds of the loop's variable and the state as long as the
  loop runs, and \<open>J\<close> of the state when the body raises.
\<close>

lemma for_each_invariant:
  assumes "\<And>x r w. x \<in> set xs \<Longrightarrow> I r w \<Longrightarrow>
             (case body x (r, w) of (Returns r', w') \<Rightarrow> I r' w' | (Raises err, w') \<Rightarrow> J w')"
    and "I r w"
  shows "case for_each body xs (r, w) of (Returns r', w') \<Rightarrow> I r' w' | (Raises err, w') \<Rightarrow> J w'"
  using assms
proof (induction xs arbitrary: r w)
  case Nil
  then show ?case by simp
next
  case (Cons x xs)
  obtain o1 w1 where b: "body x (r, w) = (o1, w1)" by (cases "body x (r, w)")
  show ?case
  proof (cases o1)
    case (Raises err)
    with b Cons.prems(1) [of x r w] Cons.prems(2) show ?thesis by simp
  next
    case (Returns r1)
    with b Cons.prems(1) [of x r w] Cons.prems(2) have "I r1 w1" by simp
    with Cons.IH [of r1 w1] Cons.prems(1) b Returns show ?thesis by simp
  qed
qed

lemma process_entry_utc:
  assumes "env_ok E" and "all_utc res w"
  shows "case process_entry E c fo e (res, w) of
           (Returns r', w') \<Rightarrow> all_utc r' w' | (Raises err, w') \<Rightarrow> news_utc w'"
proof -
  obtain ts n1 where p: "parse_entry_published E e (reads w) = (ts, n1)"
    by (cases "parse_entry_published E e (reads w)")
  show ?thesis
  proof (cases ts)
    case NaT
    with p assms(2) show ?thesis
      by (simp add: process_entry_eq all_utc_def news_utc_def)
  next
    case (Datetime dt)
    with p have "fst (parse_entry_published E e (reads w)) = Datetime dt" by simp
    from valid_parse_entry_published [OF assms(1) this]
    have u: "utc_iso (published (article_of fo (e, dt)))"
      by (auto simp: utc_iso_def article_of_def)
    from assms(2) have "\<forall>r\<in>set (news w). utc_iso (published r)" by (simp add: all_utc_def)
    from utc_iso_store [OF u this]
    have "\<forall>r\<in>set (store E (article_of fo (e, dt)) (news w)). utc_iso (published r)" .
    with p Datetime assms(2) u show ?thesis
      by (simp add: process_entry_eq all_utc_def)
  qed
qed

lemma process_office_utc:
  assumes "env_ok E" and "all_utc res w"
  shows "case process_office E c k fo (res, w) of
           (Returns r', w') \<Rightarrow> all_utc r' w' | (Raises err, w') \<Rightarrow> news_utc w'"
  unfolding process_office_entries
proof (rule for_each_invariant [where I = all_utc and J = news_utc])
  fix x r w
  assume "all_utc r w"
  then show "case process_entry E c fo x (r, w) of
      (Returns r', w') \<Rightarrow> all_utc r' w' | (Raises err, w') \<Rightarrow> news_utc w'"
    by (rule process_entry_utc [OF assms(1)])
next
  show "all_utc res w" by fact
qed

lemma fetch_news_google_utc:
  assumes "env_ok E" and "\<forall>r\<in>set (news w). utc_iso (published r)"
  shows "case fetch_news_google E c fos k w of
           (Returns r', w') \<Rightarrow> all_utc r' w' | (Raises err, w') \<Rightarrow> news_utc w'"
  unfolding fetch_news_google_def
proof (rule for_each_invariant [where I = all_utc and J = news_utc])
  fix x r w'
  assume "all_utc r w'"
  then show "case process_office E c (case k of None \<Rightarrow> 20 | Some k \<Rightarrow> k) x (r, w') of
      (Returns r', w'') \<Rightarrow> all_utc r' w'' | (Raises err, w'') \<Rightarrow> news_utc w''"
    by (rule process_office_utc [OF assms(1)])
next
  show "all_utc [] w" using assms(2) by (simp add: all_utc_def)
qed

lemma utc_iso_act:
  assumes "env_ok E" and "\<forall>r\<in>set (news w). utc_iso (published r)"
  shows "\<forall>r\<in>set (news (act E x w)). utc_iso (published r)"
proof (cases x)
  case (Fetch c fos k)
  with fetch_news_google_utc [OF assms, of c fos k] show ?thesis
    by (auto simp: all_utc_def news_utc_def split: prod.splits outcome.splits)
next
  case Clear
  then show ?thesis by (simp add: clear_all_news_def)
qed

lemma utc_iso_fold_act:
  assumes "env_ok E"
  shows "\<forall>r\<in>set (news w). utc_iso (published r) \<Longrightarrow>
         \<forall>r\<in>set (news (fold (act E) xs w)). utc_iso (published r)"
proof (induction xs arbitrary: w)
  case Nil
  then show ?case by simp
next
  case (Cons x xs)
  from utc_iso_act [OF assms Cons.prems] have "\<forall>r\<in>set (news (act E x w)). utc_iso (published r)" .
  from Cons.IH [OF this] show ?case by simp
qed

text \<open>
  C9. Whatever fallback of the normalizer produced the timestamp, every article the
  pipeline returns and every record it stores has as \<open>published\<close> the ISO string of a valid
  aware UTC datetime, which ends with the offset \<open>+00:00\<close>. If the records of the table are
  so before, they are so after every sequence of fetch runs (also those that raise) and
  clears; the empty table that \<open>init_db\<close> creates is so.
\<close>

theorem published_is_always_utc:
  assumes "env_ok E" and "\<forall>r\<in>set (news w). utc_iso (published r)"
  shows "(\<forall>a\<in>set (returned (fst (fetch_news_google E c fos k w))).
            utc_iso (published a) \<and> (\<exists>p. published a = p @ ''+00:00'')) \<and>
         (\<forall>r\<in>set (news (snd (fetch_news_google E c fos k w))).
            utc_iso (published r) \<and> (\<exists>p. published r = p @ ''+00:00'')) \<and>
         (\<forall>r\<in>set (news (fold (act E) xs w)).
            utc_iso (published r) \<and> (\<exists>p. published r = p @ ''+00:00''))"
proof -
  have 1: "\<forall>a\<in>set (returned (fst (fetch_news_google E c fos k w))). utc_iso (published a)"
    using fetch_news_google_utc [OF assms, of c fos k]
    by (auto simp: all_utc_def returned_def split: prod.splits outcome.splits)
  have 2: "\<forall>r\<in>set (news (snd (fetch_news_google E c fos k w))). utc_iso (published r)"
    using utc_iso_act [OF assms, of "Fetch c fos k"] by simp
  have 3: "\<forall>r\<in>set (news (fold (act E) xs w)). utc_iso (published r)"
    using utc_iso_fold_act [OF assms] .
  from 1 2 3 show ?thesis by (blast dest: utc_iso_suffix)
qed

theorem published_is_always_utc_witness:
  "env_ok example_env \<and>
   news \<lparr>reads = 1, news = init_db None\<rparr> = [] \<and>
   map published (news (snd (fetch_news_google example_env cutoff0 [''Edge Partners''] None
     \<lparr>reads = 1, news = init_db None\<rparr>))) =
     [''2024-01-31T12:00:00.000005+00:00'', ''2024-03-31T12:00:07.000005+00:00''] \<and>
   utc_iso ''2024-01-31T12:00:00.000005+00:00'' \<and>
   (\<exists>p. ''2024-01-31T12:00:00.000005+00:00'' = p @ ''+00:00'') \<and>
   utc_iso ''2024-03-31T12:00:07.000005+00:00'' \<and>
   (\<exists>p. ''2024-03-31T12:00:07.000005+00:00'' = p @ ''+00:00'')"
proof -
  have e: "news \<lparr>reads = 1, news = init_db None\<rparr> = []"
    by (simp add: init_db_def)
  then have h: "\<forall>r\<in>set (news \<lparr>reads = 1, news = init_db None\<rparr>). utc_iso (published r)"
    by simp
  have v: "map published (news (snd (fetch_news_google example_env cutoff0 [''Edge Partners''] None
     \<lparr>reads = 1, news = init_db None\<rparr>))) =
     [''2024-01-31T12:00:00.000005+00:00'', ''2024-03-31T12:00:07.000005+00:00'']"
    by code_simp
  note th = published_is_always_utc [OF example_env_ok h, of cutoff0 "[''Edge Partners'']" None "[]",
      THEN conjunct2, THEN conjunct1]
  from th have "\<forall>s\<in>set (map published (news (snd (fetch_news_google example_env cutoff0
      [''Edge Partners''] None \<lparr>reads = 1, news = init_db None\<rparr>)))).
      utc_iso s \<and> (\<exists>p. s = p @ ''+00:00'')"
    by (simp only: set_map ball_simps)
  then have "(utc_iso ''2024-01-31T12:00:00.000005+00:00'' \<and>
      (\<exists>p. ''2024-01-31T12:00:00.000005+00:00'' = p @ ''+00:00'')) \<and>
     (utc_iso ''2024-03-31T12:00:07.000005+00:00'' \<and>
      (\<exists>p. ''2024-03-31T12:00:07.000005+00:00'' = p @ ''+00:00''))"
    unfolding v by simp
  with example_env_ok e v show ?thesis by (simp only: simp_thms)
qed

subsection \<open>The read query\<close>

lemma set_insert_desc [simp]: "set (insert_desc r xs) = insert r (set xs)"
  by (induction xs) auto

lemma length_insert_desc [simp]: "length (insert_desc r xs) = Suc (length xs)"
  by (induction xs) auto

lemma sorted_insert_desc:
  "sorted_wrt (\<lambda>a b. published b \<le> published a) xs \<Longrightarrow>
   sorted_wrt (\<lambda>a b. published b \<le> published a) (insert_desc r xs)"
proof (induction xs)
  case Nil
  then show ?case by simp
next
  case (Cons x xs)
  show ?case
  proof (cases "published x \<le> published r")
    case True
    with Cons.prems show ?thesis by (auto intro: order_trans)
  next
    case False
    then have "published r \<le> published x" by simp
    with Cons show ?thesis by auto
  qed
qed

lemma set_order_by [simp]: "set (order_by_published_desc xs) = set xs"
  by (induction xs) (simp_all add: order_by_published_desc_def)

lemma length_order_by [simp]: "length (order_by_published_desc xs) = length xs"
  by (induction xs) (simp_all add: order_by_published_desc_def)

lemma sorted_order_by:
  "sorted_wrt (\<lambda>a b. published b \<le> published a) (order_by_published_desc xs)"
  by (induction xs) (simp_all add: order_by_published_desc_def sorted_insert_desc)

lemma set_sql_limit_subset: "set (sql_limit n xs) \<subseteq> set xs"
  by (auto simp: sql_limit_def dest: in_set_takeD)

lemma sorted_sql_limit:
  "sorted_wrt P xs \<Longrightarrow> sorted_wrt P (sql_limit n xs)"
  by (simp add: sql_limit_def sorted_wrt_take)

lemma set_select_recent:
  "r \<in> set (select_recent ws n t) \<Longrightarrow> r \<in> set t \<and> ws \<le> published r"
  using set_sql_limit_subset [of n "order_by_published_desc (filter (\<lambda>r. ws \<le> published r) t)"]
  by (auto simp: select_recent_def)

lemma sorted_select_recent:
  "sorted_wrt (\<lambda>a b. published b \<le> published a) (select_recent ws n t)"
  by (simp add: select_recent_def sorted_sql_limit sorted_order_by)

lemma length_select_recent: "0 \<le> n \<Longrightarrow> length (select_recent ws n t) \<le> nat n"
  by (simp add: select_recent_def sql_limit_def)

lemma select_recent_all:
  "n < 0 \<or> length (filter (\<lambda>r. ws \<le> published r) t) \<le> nat n \<Longrightarrow>
   set (select_recent ws n t) = {r \<in> set t. ws \<le> published r}"
  by (auto simp: select_recent_def sql_limit_def)

lemma length_filter_insert_desc:
  "length (filter P (insert_desc r xs)) = length (filter P (r # xs))"
  by (induction xs) auto

lemma length_filter_order_by:
  "length (filter P (order_by_published_desc xs)) = length (filter P xs)"
  by (induction xs) (simp_all add: order_by_published_desc_def length_filter_insert_desc)

text \<open>
  In a list in descending order, a record among the first \<open>m\<close> has fewer than \<open>m\<close> records
  that are newer than it.
\<close>

lemma sorted_take_cuts:
  assumes "sorted_wrt (\<lambda>a b. published b \<le> published a) S" and "r \<in> set (take m S)"
  shows "length (filter (\<lambda>x. published r < published x) S) < m"
proof -
  from assms(2) obtain i where i: "i < m" "i < length S" "S ! i = r"
    by (auto simp: in_set_conv_nth)
  have split: "S = take i S @ r # drop (Suc i) S"
    using id_take_nth_drop [of i S] i by simp
  with assms(1) have "sorted_wrt (\<lambda>a b. published b \<le> published a) (take i S @ r # drop (Suc i) S)"
    by simp
  then have "\<forall>y\<in>set (drop (Suc i) S). published y \<le> published r"
    by (simp add: sorted_wrt_append)
  then have "filter (\<lambda>x. published r < published x) (drop (Suc i) S) = []"
    by (auto simp: filter_empty_conv)
  then have "filter (\<lambda>x. published r < published x) (take i S @ r # drop (Suc i) S) =
      filter (\<lambda>x. published r < published x) (take i S)"
    by simp
  with split have "length (filter (\<lambda>x. published r < published x) S) =
      length (filter (\<lambda>x. published r < published x) (take i S))"
    by simp
  also have "\<dots> \<le> length (take i S)" by (rule length_filter_le)
  also have "\<dots> \<le> i" by simp
  finally show ?thesis using i(1) by simp
qed

lemma select_recent_cut:
  assumes "0 \<le> n"
    and "nat n \<le> length (filter (\<lambda>x. ws \<le> published x \<and> published r < published x) t)"
  shows "r \<notin> set (select_recent ws n t)"
proof
  assume "r \<in> set (select_recent ws n t)"
  with assms(1)
  have "r \<in> set (take (nat n) (order_by_published_desc (filter (\<lambda>x. ws \<le> published x) t)))"
    by (simp add: select_recent_def sql_limit_def)
  from sorted_take_cuts [OF sorted_order_by this]
  have "length (filter (\<lambda>x. published r < published x) (filter (\<lambda>x. ws \<le> published x) t)) < nat n"
    by (simp add: length_filter_order_by)
  with assms(2) show False by simp
qed

lemma fetch_all_news_in_range:
  "- 9223372036854775808 \<le> n \<Longrightarrow> n \<le> 9223372036854775807 \<Longrightarrow>
   fetch_all_news c (Some n) t = Returns (select_recent (isoformat c) n t)"
  by (simp add: fetch_all_news_def)

lemma returned_fetch_all_news:
  "r \<in> set (returned (fetch_all_news c limit t)) \<Longrightarrow> r \<in> set t \<and> isoformat c \<le> published r"
  by (auto simp: fetch_all_news_def returned_def Let_def dest: set_select_recent
      split: if_splits)

text \<open>
  C8 does not hold for every limit: \<open>limit\<close> is an integer, and with \<open>limit = -1\<close> the query
  returns both records of the window, which is not at most \<open>-1\<close> records.
\<close>

theorem negative_limit_is_no_limit:
  "fetch_all_news cutoff0 (Some (- 1)) [stale_row, first_row, boundary_row] =
     Returns [first_row, boundary_row] \<and>
   \<not> int (length (returned (fetch_all_news cutoff0 (Some (- 1))
       [stale_row, first_row, boundary_row]))) \<le> - 1"
proof -
  have "fetch_all_news cutoff0 (Some (- 1)) [stale_row, first_row, boundary_row] =
     Returns [first_row, boundary_row]"
    by code_simp
  then show ?thesis by (simp add: returned_def)
qed

text \<open>
  C8, as the code has it. For every table, window start and limit that fits a 64-bit
  integer, the rows that \<open>fetch_all_news\<close> returns are rows of the table whose \<open>published\<close>
  is at or after the window start, in non-increasing order of \<open>published\<close>; there are at
  most \<open>limit\<close> of them when \<open>limit\<close> is not negative, and a negative \<open>limit\<close> returns every
  row of the window. A limit that does not fit raises OverflowError. The order is that of
  the stored strings, which for ISO strings of UTC datetimes is the order of the datetimes.
\<close>

theorem fetch_all_news_window_order_limit:
  "(- 9223372036854775808 \<le> n \<and> n \<le> 9223372036854775807 \<longrightarrow>
      (\<exists>rows. fetch_all_news c (Some n) t = Returns rows \<and>
         (\<forall>r\<in>set rows. r \<in> set t \<and> isoformat c \<le> published r) \<and>
         sorted_wrt (\<lambda>a b. published b \<le> published a) rows \<and>
         (0 \<le> n \<longrightarrow> length rows \<le> nat n) \<and>
         (n < 0 \<longrightarrow> set rows = {r \<in> set t. isoformat c \<le> published r}) \<and>
         (valid_datetime c \<longrightarrow>
            (\<forall>r\<in>set rows. \<forall>dt. valid_datetime dt \<and> published r = isoformat dt
               \<longrightarrow> \<not> dt_less dt c) \<and>
            sorted_wrt (\<lambda>a b. \<forall>da db. valid_datetime da \<and> valid_datetime db \<and>
               published a = isoformat da \<and> published b = isoformat db \<longrightarrow> \<not> dt_less da db)
              rows))) \<and>
   (n < - 9223372036854775808 \<or> 9223372036854775807 < n \<longrightarrow>
      fetch_all_news c (Some n) t = Raises OverflowError) \<and>
   fetch_all_news c None t = fetch_all_news c (Some 100) t"
proof -
  let ?rows = "select_recent (isoformat c) n t"
  have 1: "\<forall>r\<in>set ?rows. r \<in> set t \<and> isoformat c \<le> published r"
    by (auto dest: set_select_recent)
  have 2: "sorted_wrt (\<lambda>a b. published b \<le> published a) ?rows"
    by (simp add: sorted_select_recent)
  have 3: "length ?rows \<le> nat n" if "0 \<le> n"
    using that by (simp add: length_select_recent)
  have 4: "set ?rows = {r \<in> set t. isoformat c \<le> published r}" if "n < 0"
    using that by (simp add: select_recent_all)
  have 6: "\<forall>r\<in>set ?rows. \<forall>dt. valid_datetime dt \<and> published r = isoformat dt
         \<longrightarrow> \<not> dt_less dt c" if "valid_datetime c"
    using 1 that by (auto simp: isoformat_le_iff)
  have 7: "sorted_wrt (\<lambda>a b. \<forall>da db. valid_datetime da \<and> valid_datetime db \<and>
         published a = isoformat da \<and> published b = isoformat db \<longrightarrow> \<not> dt_less da db) ?rows"
    by (rule sorted_wrt_mono_rel [OF _ 2]) (auto simp: isoformat_le_iff)
  have a: "\<exists>rows. fetch_all_news c (Some n) t = Returns rows \<and>
         (\<forall>r\<in>set rows. r \<in> set t \<and> isoformat c \<le> published r) \<and>
         sorted_wrt (\<lambda>a b. published b \<le> published a) rows \<and>
         (0 \<le> n \<longrightarrow> length rows \<le> nat n) \<and>
         (n < 0 \<longrightarrow> set rows = {r \<in> set t. isoformat c \<le> published r}) \<and>
         (valid_datetime c \<longrightarrow>
            (\<forall>r\<in>set rows. \<forall>dt. valid_datetime dt \<and> published r = isoformat dt
               \<longrightarrow> \<not> dt_less dt c) \<and>
            sorted_wrt (\<lambda>a b. \<forall>da db. valid_datetime da \<and> valid_datetime db \<and>
               published a = isoformat da \<and> published b = isoformat db \<longrightarrow> \<not> dt_less da db)
              rows)"
    if "- 9223372036854775808 \<le> n" "n \<le> 9223372036854775807"
  proof (intro exI [of _ ?rows] conjI impI)
    show "fetch_all_news c (Some n) t = Returns ?rows"
      by (rule fetch_all_news_in_range [OF that])
    show "\<forall>r\<in>set ?rows. r \<in> set t \<and> isoformat c \<le> published r" by (rule 1)
    show "sorted_wrt (\<lambda>a b. published b \<le> published a) ?rows" by (rule 2)
    show "length ?rows \<le> nat n" if "0 \<le> n" by (rule 3 [OF that])
    show "set ?rows = {r \<in> set t. isoformat c \<le> published r}" if "n < 0" by (rule 4 [OF that])
    show "\<forall>r\<in>set ?rows. \<forall>dt. valid_datetime dt \<and> published r = isoformat dt
         \<longrightarrow> \<not> dt_less dt c" if "valid_datetime c" by (rule 6 [OF that])
    show "sorted_wrt (\<lambda>a b. \<forall>da db. valid_datetime da \<and> valid_datetime db \<and>
         published a = isoformat da \<and> published b = isoformat db \<longrightarrow> \<not> dt_less da db) ?rows"
      by (rule 7)
  qed
  have b: "fetch_all_news c (Some n) t = Raises OverflowError"
    if "n < - 9223372036854775808 \<or> 9223372036854775807 < n"
    using that by (simp add: fetch_all_news_def)
  have c: "fetch_all_news c None t = fetch_all_news c (Some 100) t"
    by (simp add: fetch_all_news_def)
  show ?thesis
  proof (intro conjI)
    show "- 9223372036854775808 \<le> n \<and> n \<le> 9223372036854775807 \<longrightarrow>
      (\<exists>rows. fetch_all_news c (Some n) t = Returns rows \<and>
         (\<forall>r\<in>set rows. r \<in> set t \<and> isoformat c \<le> published r) \<and>
         sorted_wrt (\<lambda>a b. published b \<le> published a) rows \<and>
         (0 \<le> n \<longrightarrow> length rows \<le> nat n) \<and>
         (n < 0 \<longrightarrow> set rows = {r \<in> set t. isoformat c \<le> published r}) \<and>
         (valid_datetime c \<longrightarrow>
            (\<forall>r\<in>set rows. \<forall>dt. valid_datetime dt \<and> published r = isoformat dt
               \<longrightarrow> \<not> dt_less dt c) \<and>
            sorted_wrt (\<lambda>a b. \<forall>da db. valid_datetime da \<and> valid_datetime db \<and>
               published a = isoformat da \<and> published b = isoformat db \<longrightarrow> \<not> dt_less da db)
              rows))"
      using a by (intro impI) (elim conjE)
    show "n < - 9223372036854775808 \<or> 9223372036854775807 < n \<longrightarrow>
      fetch_all_news c (Some n) t = Raises OverflowError"
      using b by (intro impI)
    show "fetch_all_news c None t = fetch_all_news c (Some 100) t" by (rule c)
  qed
qed

theorem fetch_all_news_window_order_limit_witness:
  "fetch_all_news cutoff0 (Some 1) [stale_row, first_row, boundary_row] = Returns [first_row] \<and>
   fetch_all_news cutoff0 (Some 200) [stale_row, first_row, boundary_row] =
     Returns [first_row, boundary_row] \<and>
   (- 9223372036854775808 :: int) \<le> 1 \<and> (1 :: int) \<le> 9223372036854775807 \<and> (0::int) \<le> 1 \<and>
   length (returned (fetch_all_news cutoff0 (Some 1) [stale_row, first_row, boundary_row])) \<le> nat 1 \<and>
   fetch_all_news cutoff0 (Some 9223372036854775808) [stale_row, first_row, boundary_row] =
     Raises OverflowError"
proof -
  have a: "fetch_all_news cutoff0 (Some 1) [stale_row, first_row, boundary_row] = Returns [first_row]"
    by code_simp
  have b: "fetch_all_news cutoff0 (Some 200) [stale_row, first_row, boundary_row] =
      Returns [first_row, boundary_row]"
    by code_simp
  have z: "(- 9223372036854775808 :: int) \<le> 1" "(1 :: int) \<le> 9223372036854775807" "(0::int) \<le> 1"
    by simp_all
  note th = fetch_all_news_window_order_limit [of 1 cutoff0 "[stale_row, first_row, boundary_row]"]
  from th [THEN conjunct1, THEN mp, OF conjI [OF z(1) z(2)]]
  obtain rows where r: "fetch_all_news cutoff0 (Some 1) [stale_row, first_row, boundary_row] =
      Returns rows" and l: "0 \<le> (1::int) \<longrightarrow> length rows \<le> nat 1"
    by blast
  from r l z(3) have l': "length (returned (fetch_all_news cutoff0 (Some 1)
      [stale_row, first_row, boundary_row])) \<le> nat 1"
    by (simp add: returned_def)
  have o: "fetch_all_news cutoff0 (Some 9223372036854775808) [stale_row, first_row, boundary_row] =
     Raises OverflowError"
    using fetch_all_news_window_order_limit [of 9223372036854775808 cutoff0
        "[stale_row, first_row, boundary_row]", THEN conjunct2, THEN conjunct1]
    by simp
  show ?thesis by (intro conjI a b z l' o)
qed

subsection \<open>The cutoff\<close>

lemma link_in_store: "link a \<in> set (map link (store E a t))"
  by (simp add: store_def save_article_def)

lemma store_new_link:
  "link a \<notin> set (map link t) \<Longrightarrow>
   \<exists>r\<in>set (store E a t). link r = link a \<and> published r = published a"
  by (simp add: store_def save_article_def)

lemma valid_cutoff0: "valid_datetime cutoff0"
  by (simp add: valid_datetime_def cutoff0_def days_in_month_def DAYS_IN_MONTH_def)

lemma valid_just_older0: "valid_datetime just_older0"
  by (simp add: valid_datetime_def just_older0_def days_in_month_def DAYS_IN_MONTH_def)

lemma isoformat_cutoff0: "isoformat cutoff0 = ''2024-01-31T12:00:00.000005+00:00''"
  by code_simp

lemma newer_rows_in_window:
  "filter (\<lambda>x. isoformat cutoff0 \<le> published x \<and> published boundary_row < published x)
     (map newer_row xs) = map newer_row xs"
  by (induction xs) (simp_all add: isoformat_cutoff0 newer_row_def boundary_row_def)

text \<open>
  C5 does not hold of the read path as stated. The table holds the record published
  exactly at the cutoff and 200 newer records; the read of the display, with its limit of
  200, returns the 200 newest records of the window and not the record at the cutoff. The
  same happens with a limit of 1 and one newer record.
\<close>

theorem limit_cuts_the_boundary_record:
  "boundary_row \<in> set crowded_table \<and> length crowded_table = 201 \<and>
   published boundary_row = isoformat cutoff0 \<and>
   boundary_row \<notin> set (returned (fetch_all_news cutoff0 (Some 200) crowded_table)) \<and>
   fetch_all_news cutoff0 (Some 1) [first_row, boundary_row] = Returns [first_row]"
proof -
  have a: "boundary_row \<in> set crowded_table" "length crowded_table = 201"
    by (simp_all add: crowded_table_def)
  have b: "published boundary_row = isoformat cutoff0"
    by (simp add: isoformat_cutoff0 boundary_row_def)
  have "filter (\<lambda>x. isoformat cutoff0 \<le> published x \<and> published boundary_row < published x)
      crowded_table = map newer_row [0..<200]"
    by (simp add: crowded_table_def newer_rows_in_window)
  then have "nat 200 \<le> length (filter (\<lambda>x. isoformat cutoff0 \<le> published x \<and>
      published boundary_row < published x) crowded_table)"
    by simp
  from select_recent_cut [OF _ this]
  have "boundary_row \<notin> set (select_recent (isoformat cutoff0) 200 crowded_table)"
    by simp
  then have c: "boundary_row \<notin> set (returned (fetch_all_news cutoff0 (Some 200) crowded_table))"
    by (simp add: fetch_all_news_in_range returned_def)
  have d: "fetch_all_news cutoff0 (Some 1) [first_row, boundary_row] = Returns [first_row]"
    by code_simp
  show ?thesis by (intro conjI a b c d)
qed

text \<open>
  C5, as the code has it. The boundary is inclusive on both paths. On the write path, an
  entry whose normalized timestamp is exactly the cutoff is appended to the results and
  saved (its link is in the table afterwards, with the ISO string of the cutoff as
  \<open>published\<close> when the link was new), and an entry whose timestamp is a datetime less than
  the cutoff changes neither the results nor the table. On the read path, a stored record
  whose \<open>published\<close> is the ISO string of the cutoff is in the window, and is returned
  whenever the limit does not cut the window (a negative limit, or no more records in the
  window than the limit); a record whose \<open>published\<close> is the ISO string of any earlier
  datetime is never returned.
\<close>

theorem cutoff_boundary_is_inclusive:
  assumes "valid_datetime c"
  shows "(fst (parse_entry_published E e (reads w)) = Datetime c \<longrightarrow>
            process_entry E c fo e (res, w) =
              (Returns (res @ [article_of fo (e, c)]),
               \<lparr>reads = snd (parse_entry_published E e (reads w)),
                news = store E (article_of fo (e, c)) (news w)\<rparr>) \<and>
            link (article_of fo (e, c)) \<in> set (map link (news (snd (process_entry E c fo e (res, w))))) \<and>
            (link (article_of fo (e, c)) \<notin> set (map link (news w)) \<longrightarrow>
               (\<exists>r\<in>set (news (snd (process_entry E c fo e (res, w)))).
                  link r = link (article_of fo (e, c)) \<and> published r = isoformat c))) \<and>
         (fst (parse_entry_published E e (reads w)) = Datetime older \<and> dt_less older c \<longrightarrow>
            fst (process_entry E c fo e (res, w)) = Returns res \<and>
            news (snd (process_entry E c fo e (res, w))) = news w) \<and>
         (r \<in> set t \<and> published r = isoformat c \<longrightarrow>
            isoformat c \<le> published r \<and>
            (- 9223372036854775808 \<le> n \<and> n < 0 \<or>
             0 \<le> n \<and> n \<le> 9223372036854775807 \<and>
             length (filter (\<lambda>x. isoformat c \<le> published x) t) \<le> nat n \<longrightarrow>
               r \<in> set (returned (fetch_all_news c (Some n) t)))) \<and>
         (valid_datetime dt \<and> dt_less dt c \<and> published r' = isoformat dt \<longrightarrow>
            r' \<notin> set (returned (fetch_all_news c limit t)))"
proof -
  have irrefl: "\<not> dt_less c c" by (simp add: dt_less_def)
  have 1: "process_entry E c fo e (res, w) =
              (Returns (res @ [article_of fo (e, c)]),
               \<lparr>reads = snd (parse_entry_published E e (reads w)),
                news = store E (article_of fo (e, c)) (news w)\<rparr>)"
    if "fst (parse_entry_published E e (reads w)) = Datetime c"
  proof -
    from that obtain n1 where "parse_entry_published E e (reads w) = (Datetime c, n1)"
      by (cases "parse_entry_published E e (reads w)") simp
    with irrefl show ?thesis by (simp add: process_entry_eq)
  qed
  have 2: "link (article_of fo (e, c)) \<in> set (map link (news (snd (process_entry E c fo e (res, w)))))"
    if "fst (parse_entry_published E e (reads w)) = Datetime c"
    unfolding 1 [OF that] using link_in_store [of "article_of fo (e, c)" E "news w"] by simp
  have 3: "\<exists>r\<in>set (news (snd (process_entry E c fo e (res, w)))).
             link r = link (article_of fo (e, c)) \<and> published r = isoformat c"
    if "fst (parse_entry_published E e (reads w)) = Datetime c"
      and "link (article_of fo (e, c)) \<notin> set (map link (news w))"
    unfolding 1 [OF that(1)] using store_new_link [OF that(2), of E] by (simp add: article_of_def)
  have 4: "fst (process_entry E c fo e (res, w)) = Returns res \<and>
           news (snd (process_entry E c fo e (res, w))) = news w"
    if "fst (parse_entry_published E e (reads w)) = Datetime older" "dt_less older c"
  proof -
    from that(1) obtain n1 where "parse_entry_published E e (reads w) = (Datetime older, n1)"
      by (cases "parse_entry_published E e (reads w)") simp
    with that(2) show ?thesis by (simp add: process_entry_eq)
  qed
  have 5: "r \<in> set (returned (fetch_all_news c (Some n) t))"
    if "r \<in> set t" "published r = isoformat c"
      "- 9223372036854775808 \<le> n \<and> n < 0 \<or>
       0 \<le> n \<and> n \<le> 9223372036854775807 \<and>
       length (filter (\<lambda>x. isoformat c \<le> published x) t) \<le> nat n"
  proof -
    from that(3) have range: "- 9223372036854775808 \<le> n" "n \<le> 9223372036854775807"
      by auto
    from that(3) have "n < 0 \<or> length (filter (\<lambda>x. isoformat c \<le> published x) t) \<le> nat n"
      by auto
    from select_recent_all [OF this] that(1,2)
    have "r \<in> set (select_recent (isoformat c) n t)" by simp
    then show ?thesis by (simp add: fetch_all_news_in_range [OF range] returned_def)
  qed
  have 6: "r' \<notin> set (returned (fetch_all_news c limit t))"
    if "valid_datetime dt" "dt_less dt c" "published r' = isoformat dt"
  proof
    assume "r' \<in> set (returned (fetch_all_news c limit t))"
    then have "isoformat c \<le> published r'"
      by (auto dest: returned_fetch_all_news)
    with that assms show False by (simp add: isoformat_le_iff)
  qed
  show ?thesis
  proof (intro conjI impI)
    assume "fst (parse_entry_published E e (reads w)) = Datetime c"
    then show "process_entry E c fo e (res, w) =
              (Returns (res @ [article_of fo (e, c)]),
               \<lparr>reads = snd (parse_entry_published E e (reads w)),
                news = store E (article_of fo (e, c)) (news w)\<rparr>)"
      and "link (article_of fo (e, c)) \<in> set (map link (news (snd (process_entry E c fo e (res, w)))))"
      by (rule 1, rule 2)
  next
    assume "fst (parse_entry_published E e (reads w)) = Datetime c"
      and "link (article_of fo (e, c)) \<notin> set (map link (news w))"
    then show "\<exists>r\<in>set (news (snd (process_entry E c fo e (res, w)))).
                  link r = link (article_of fo (e, c)) \<and> published r = isoformat c"
      by (rule 3)
  next
    assume a: "fst (parse_entry_published E e (reads w)) = Datetime older \<and> dt_less older c"
    from 4 [OF conjunct1 [OF a] conjunct2 [OF a]]
    show "fst (process_entry E c fo e (res, w)) = Returns res"
      and "news (snd (process_entry E c fo e (res, w))) = news w"
      by simp_all
  next
    assume "r \<in> set t \<and> published r = isoformat c"
    then show "isoformat c \<le> published r" by simp
  next
    assume a: "r \<in> set t \<and> published r = isoformat c"
      and b: "- 9223372036854775808 \<le> n \<and> n < 0 \<or>
             0 \<le> n \<and> n \<le> 9223372036854775807 \<and>
             length (filter (\<lambda>x. isoformat c \<le> published x) t) \<le> nat n"
    from 5 [OF conjunct1 [OF a] conjunct2 [OF a] b]
    show "r \<in> set (returned (fetch_all_news c (Some n) t))" .
  next
    assume a: "valid_datetime dt \<and> dt_less dt c \<and> published r' = isoformat dt"
    then have "valid_datetime dt" "dt_less dt c" "published r' = isoformat dt" by simp_all
    then show "r' \<notin> set (returned (fetch_all_news c limit t))" by (rule 6)
  qed
qed

theorem cutoff_boundary_is_inclusive_witness:
  "valid_datetime cutoff0 \<and>
   fst (parse_entry_published example_env entry_boundary (reads world1)) = Datetime cutoff0 \<and>
   process_entry example_env cutoff0 ''Edge Partners'' entry_boundary ([], world1) =
     (Returns [\<lparr>family_office = ''Edge Partners'', title = ''At the cutoff'', link = ''https://x/4'',
         published = ''2024-01-31T12:00:00.000005+00:00'', source = ''Google News''\<rparr>],
      \<lparr>reads = 1, news = [first_row, boundary_row]\<rparr>) \<and>
   process_entry example_env cutoff0 ''Edge Partners'' entry_boundary ([], world1) =
     (Returns ([] @ [article_of ''Edge Partners'' (entry_boundary, cutoff0)]),
      \<lparr>reads = snd (parse_entry_published example_env entry_boundary (reads world1)),
       news = store example_env (article_of ''Edge Partners'' (entry_boundary, cutoff0))
                (news world1)\<rparr>) \<and>
   fst (parse_entry_published example_env entry_just_older (reads world1)) = Datetime just_older0 \<and>
   dt_less just_older0 cutoff0 \<and>
   fst (process_entry example_env cutoff0 ''Edge Partners'' entry_just_older ([], world1)) =
     Returns [] \<and>
   news (snd (process_entry example_env cutoff0 ''Edge Partners'' entry_just_older ([], world1))) =
     news world1 \<and>
   published boundary_row = isoformat cutoff0 \<and>
   boundary_row \<in> set (returned (fetch_all_news cutoff0 (Some 200)
     [stale_row, first_row, boundary_row])) \<and>
   valid_datetime just_older0 \<and>
   published stale_row = isoformat just_older0 \<and>
   stale_row \<notin> set (returned (fetch_all_news cutoff0 (Some 200)
     [stale_row, first_row, boundary_row]))"
proof -
  have a: "fst (parse_entry_published example_env entry_boundary (reads world1)) = Datetime cutoff0"
    by code_simp
  have b: "process_entry example_env cutoff0 ''Edge Partners'' entry_boundary ([], world1) =
     (Returns [\<lparr>family_office = ''Edge Partners'', title = ''At the cutoff'', link = ''https://x/4'',
         published = ''2024-01-31T12:00:00.000005+00:00'', source = ''Google News''\<rparr>],
      \<lparr>reads = 1, news = [first_row, boundary_row]\<rparr>)"
    by code_simp
  have c: "fst (parse_entry_published example_env entry_just_older (reads world1)) =
      Datetime just_older0"
    by code_simp
  have d: "published boundary_row = isoformat cutoff0" "published stale_row = isoformat just_older0"
    "dt_less just_older0 cutoff0"
    by code_simp+
  have m: "boundary_row \<in> set [stale_row, first_row, boundary_row]" by simp
  have e: "- 9223372036854775808 \<le> (200::int) \<and> (200::int) < 0 \<or>
      0 \<le> (200::int) \<and> (200::int) \<le> 9223372036854775807 \<and>
      length (filter (\<lambda>x. isoformat cutoff0 \<le> published x) [stale_row, first_row, boundary_row])
        \<le> nat 200"
    by simp
  note th1 = cutoff_boundary_is_inclusive [OF valid_cutoff0, where E = example_env
      and e = entry_boundary and w = world1 and fo = "''Edge Partners''" and res = "[]"
      and r = boundary_row and t = "[stale_row, first_row, boundary_row]" and n = 200
      and dt = just_older0 and r' = stale_row and limit = "Some 200"]
  note th2 = cutoff_boundary_is_inclusive [OF valid_cutoff0, where E = example_env
      and e = entry_just_older and w = world1 and fo = "''Edge Partners''" and res = "[]"
      and older = just_older0]
  note w1 = th1 [THEN conjunct1, THEN mp, OF a, THEN conjunct1]
  note w2 = th2 [THEN conjunct2, THEN conjunct1, THEN mp, OF conjI [OF c d(3)]]
  note r1 = th1 [THEN conjunct2, THEN conjunct2, THEN conjunct1, THEN mp, OF conjI [OF m d(1)],
      THEN conjunct2, THEN mp, OF e]
  note r2 = th1 [THEN conjunct2, THEN conjunct2, THEN conjunct2, THEN mp,
      OF conjI [OF valid_just_older0 conjI [OF d(3) d(2)]]]
  show ?thesis
    by (intro conjI valid_cutoff0 valid_just_older0 a b c d w1 w2 [THEN conjunct1]
        w2 [THEN conjunct2] r1 r2)
qed

subsection \<open>The window start of a read\<close>

lemma example_run:
  "run_script example_env ''Edge Partners'' True False 0 (Some [first_row, boundary_row]) =
     (Returns [undated_row, first_row, boundary_row], 2,
      Some [first_row, boundary_row, undated_row])"
  by code_simp

text \<open>
  C1 does not hold. The module loads at 12:00:00.000005, so its cutoff is 2024-01-31
  12:00:00.000005; the fetch run reads the clock seven seconds later; the read that follows
  still returns the record published exactly at the load-time cutoff, which a window start
  recomputed at the time of the read (2024-01-31 12:00:07.000005) would drop.
\<close>

theorem read_window_is_not_recomputed:
  "run_script example_env ''Edge Partners'' True False 0 (Some [first_row, boundary_row]) =
     (Returns [undated_row, first_row, boundary_row], 2,
      Some [first_row, boundary_row, undated_row]) \<and>
   list_recent_at_read_time example_env 2 200 [first_row, boundary_row, undated_row] =
     Some [undated_row, first_row] \<and>
   Some [undated_row, first_row, boundary_row] \<noteq>
     list_recent_at_read_time example_env 2 200 [first_row, boundary_row, undated_row]"
proof -
  have "list_recent_at_read_time example_env 2 200 [first_row, boundary_row, undated_row] =
     Some [undated_row, first_row]"
    by code_simp
  with example_run show ?thesis by simp
qed

text \<open>
  C1, as the code has it. The window start of a read is the module-level constant
  \<open>NEWS_CUTOFF_DATE\<close>: it is computed once per execution of the script, from the clock value
  at the time the module loads, and the fetch run and the read of that execution both use
  this one value. \<open>fetch_all_news\<close> does not read the clock.
\<close>

theorem read_window_is_the_load_time_cutoff:
  assumes "run_script E inp fetch_clicked clear_clicked n stored = (Returns rows, n', stored')"
  shows "\<exists>c w. load_NEWS_CUTOFF_DATE E n = (Some c, Suc n) \<and>
             sub_days (clock E n) 60 = Some c \<and>
             n' = reads w \<and> stored' = Some (news w) \<and>
             fetch_all_news c (Some 200) (news w) = Returns rows \<and>
             rows = select_recent (isoformat c) 200 (news w) \<and>
             (fetch_clicked \<longrightarrow>
                snd (fetch_news_google E c (offices_of_input inp) None
                      \<lparr>reads = Suc n, news = (if clear_clicked then [] else init_db stored)\<rparr>) = w)"
proof -
  obtain c where c: "sub_days (clock E n) 60 = Some c"
    using assms
    by (cases "sub_days (clock E n) 60")
       (simp_all add: run_script_def load_NEWS_CUTOFF_DATE_def datetime_now_def)
  let ?w2 = "\<lparr>reads = Suc n, news = (if clear_clicked then [] else init_db stored)\<rparr>"
  have read: "fetch_all_news c (Some 200) t = Returns (select_recent (isoformat c) 200 t)" for t
    by (simp add: fetch_all_news_in_range)
  show ?thesis
  proof (cases fetch_clicked)
    case False
    with assms c read show ?thesis
      by (intro exI [of _ c] exI [of _ ?w2])
         (auto simp: run_script_def load_NEWS_CUTOFF_DATE_def datetime_now_def Let_def
            clear_all_news_def)
  next
    case True
    obtain o3 w3 where f: "fetch_news_google E c (offices_of_input inp) None ?w2 = (o3, w3)"
      by (cases "fetch_news_google E c (offices_of_input inp) None ?w2")
    show ?thesis
    proof (cases o3)
      case (Raises err)
      with assms c True f show ?thesis
        by (cases clear_clicked)
           (simp_all add: run_script_def load_NEWS_CUTOFF_DATE_def datetime_now_def Let_def
              clear_all_news_def)
    next
      case (Returns results)
      with assms c True f read show ?thesis
        by (intro exI [of _ c] exI [of _ w3])
           (cases clear_clicked;
            simp add: run_script_def load_NEWS_CUTOFF_DATE_def datetime_now_def Let_def
              clear_all_news_def)
    qed
  qed
qed

theorem read_window_is_the_load_time_cutoff_witness:
  "run_script example_env ''Edge Partners'' True False 0 (Some [first_row, boundary_row]) =
     (Returns [undated_row, first_row, boundary_row], 2,
      Some [first_row, boundary_row, undated_row]) \<and>
   sub_days (clock example_env 0) 60 = Some cutoff0 \<and>
   (\<exists>c w. load_NEWS_CUTOFF_DATE example_env 0 = (Some c, Suc 0) \<and>
        sub_days (clock example_env 0) 60 = Some c \<and>
        2 = reads w \<and> Some [first_row, boundary_row, undated_row] = Some (news w) \<and>
        fetch_all_news c (Some 200) (news w) = Returns [undated_row, first_row, boundary_row] \<and>
        [undated_row, first_row, boundary_row] = select_recent (isoformat c) 200 (news w) \<and>
        (True \<longrightarrow>
           snd (fetch_news_google example_env c (offices_of_input ''Edge Partners'') None
                 \<lparr>reads = Suc 0,
                    news = (if False then [] else init_db (Some [first_row, boundary_row]))\<rparr>) = w))"
proof -
  have a: "sub_days (clock example_env 0) 60 = Some cutoff0" by code_simp
  show ?thesis
    by (intro conjI example_run a read_window_is_the_load_time_cutoff [OF example_run])
qed

end
